theory Spec2Isabelle
  imports Main "HOL-Library.Word"
begin

unbundle bit_operations_syntax

section \<open>Machine types\<close>

type_synonym u8 = "8 word"
type_synonym u32 = "32 word"
type_synonym u64 = "64 word"

text \<open>
  \<open>CraggyResult\<close> is an enum declared in CraggyTypes.h, which is not among the sources.
  The code under study only ever names \<open>CraggyResultSuccess\<close>; every other member is
  kept as an opaque numeric code.
\<close>

datatype CraggyResult = CraggyResultSuccess | CraggyResultOther nat

section \<open>Timestamp conversion (library/CraggyTimeUtils.c)\<close>

text \<open>
  \<open>craggy_roughtime_result\<close> is the struct the converter reads: the test fixture sets its
  fields \<open>time\<close> (uint64) and \<open>radius\<close>.
\<close>

record craggy_roughtime_result =
  time :: u64
  radius :: u32

definition NUMBER_OF_JULIAN_DAYS_UNTIL_EPOCH :: u64 where
  "NUMBER_OF_JULIAN_DAYS_UNTIL_EPOCH = 40587"

definition NUMBER_OF_MICROSECONDS_IN_SECOND :: u64 where
  "NUMBER_OF_MICROSECONDS_IN_SECOND = 1000000"

definition NUMBER_OF_SECONDS_IN_A_DAY :: u64 where
  "NUMBER_OF_SECONDS_IN_A_DAY = 60 * 60 * 24"

text \<open>
  The function writes \<open>*outTime\<close> in two statements and returns the status; the model
  returns the pair (status, final \<open>*outTime\<close>). All arithmetic is uint64: \<open>-\<close>, \<open>*\<close>
  and \<open>+\<close> wrap, the shifts by 40 and 24 are \<open>drop_bit\<close> and \<open>push_bit\<close>.
\<close>

definition craggy_roughtimeToEpoc :: "craggy_roughtime_result \<Rightarrow> u64 \<Rightarrow> CraggyResult \<times> u64" where
  "craggy_roughtimeToEpoc roughtimeResult serverRoundTripUs =
     (let outTime = (drop_bit 40 (time roughtimeResult) - NUMBER_OF_JULIAN_DAYS_UNTIL_EPOCH)
                      * NUMBER_OF_SECONDS_IN_A_DAY;
          outTime = outTime
                      + (drop_bit 24 (push_bit 24 (time roughtimeResult)) + serverRoundTripUs div 2)
                          div NUMBER_OF_MICROSECONDS_IN_SECOND
      in (CraggyResultSuccess, outTime))"

text \<open>The two fields of the wire timestamp, read as mathematical integers.\<close>

definition mjd_of :: "u64 \<Rightarrow> int" where
  "mjd_of t = uint t div 2 ^ 40"

definition us_since_midnight :: "u64 \<Rightarrow> int" where
  "us_since_midnight t = uint t mod 2 ^ 40"

definition days_since_epoch :: "u64 \<Rightarrow> int" where
  "days_since_epoch t = mjd_of t - 40587"

text \<open>
  The conversion as section 4.5 of the specification words it, in epoch microseconds:
  the day count converted to microseconds, plus the microseconds since midnight and half
  the round trip. It is compared with the code below.
\<close>

definition spec_epoch_us :: "u64 \<Rightarrow> u64 \<Rightarrow> int" where
  "spec_epoch_us t round_trip_us =
     days_since_epoch t * 86400 * 1000000 + (us_since_midnight t + uint round_trip_us div 2)"

text \<open>The value the code computes, before any reduction to 64 bits: epoch seconds.\<close>

definition epoch_seconds :: "u64 \<Rightarrow> u64 \<Rightarrow> int" where
  "epoch_seconds t round_trip_us =
     days_since_epoch t * 86400 + (us_since_midnight t + uint round_trip_us div 2) div 1000000"

section \<open>The command-line clients\<close>

text \<open>
  Four copies of the client \<open>main\<close> exist in the sources: cli/main.c (the non-GNSS
  client), the roughtime-tester \<open>main\<close> (src/unnamed/part_003), an older tester \<open>main\<close>
  kept inside roughtime-tester/gps-sim.h, and the roughtest \<open>main\<close> kept inside
  craggy-serial/roughtest/CMakeLists.txt. Their option loops differ only in the \<open>'p'\<close>
  case.
\<close>

datatype variant = VCli | VTester | VTesterSim | VRoughtest

subsection \<open>Heap of C strings\<close>

text \<open>
  A block holds a NUL-terminated string in \<open>cap\<close> bytes. Pointers are indices into the
  list of blocks; \<open>NULL\<close> is \<open>None\<close>. \<open>malloc\<close> is taken to succeed; a fresh block is
  uninitialised and is never read before it is written.
\<close>

record buffer =
  cap :: nat
  content :: string

type_synonym ptr = "nat option"

text \<open>Outcome of a piece of \<open>main\<close>: fall through, \<open>goto error\<close>, \<open>abort()\<close>, or
  undefined behaviour of C (a write past a block, a \<open>NULL\<close> dereference, \<open>imaxabs\<close> of
  the least int64).\<close>

datatype flow = Continue | GotoError | Aborted | UndefinedBehaviour

record pstate =
  heap :: "buffer list"
  hostname :: ptr
  nonce :: ptr
  publicKey :: ptr
  gpsPort :: ptr
  repeats :: u8
  intervals :: u8

definition malloc :: "nat \<Rightarrow> pstate \<Rightarrow> nat \<times> pstate" where
  "malloc n st = (length (heap st), st\<lparr>heap := heap st @ [\<lparr>cap = n, content = []\<rparr>]\<rparr>)"

text \<open>\<open>strcpy dst src\<close> writes \<open>strlen src + 1\<close> bytes at \<open>dst\<close> and returns \<open>dst\<close>.\<close>

definition strcpy :: "ptr \<Rightarrow> string \<Rightarrow> pstate \<Rightarrow> (nat \<times> pstate) option" where
  "strcpy dst src st =
     (case dst of
        None \<Rightarrow> None
      | Some p \<Rightarrow>
          if p < length (heap st) \<and> length src + 1 \<le> cap (heap st ! p)
          then Some (p, st\<lparr>heap := (heap st)[p := (heap st ! p)\<lparr>content := src\<rparr>]\<rparr>)
          else None)"

text \<open>The string a pointer designates, as \<open>strlen\<close>, \<open>base64_decode\<close> and
  \<open>craggy_makeRequest\<close> read it.\<close>

definition deref :: "pstate \<Rightarrow> nat \<Rightarrow> string" where
  "deref st p = content (heap st ! p)"

subsection \<open>Observable events\<close>

datatype clockid = CLOCK_MONOTONIC | CLOCK_REALTIME

record timespec =
  tv_sec :: int
  tv_nsec :: int

datatype event =
    PrintOption
  | PrintPollEvery u8
  | PrintPollTimes u8
  | PrintUsage
  | PrintKeyLength nat
  | PrintNonceLength nat
  | PrintNonceError CraggyResult
  | PrintStart
  | ClockGettime clockid
  | MakeRequest string "u8 list"
  | PrintParseError CraggyResult
  | PrintRequestError CraggyResult
  | PrintReply u64
  | PrintCurrentTime u64 u32
  | PrintOffset int
  | PrintStop
  | Sleep u8
  | LogCraggyTimestamp u64
  | LogGpsTimestamp
  | LogTimeDelta u32

record world =
  trace :: "event list"
  clock_reads :: nat
  requests :: nat

definition emit :: "event \<Rightarrow> world \<Rightarrow> world" where
  "emit e w = w\<lparr>trace := trace w @ [e]\<rparr>"

text \<open>
  What the clients call but the sources do not contain: libc (\<open>atoi\<close>, \<open>clock_gettime\<close>),
  base64.c and the craggy library. \<open>clock_gettime\<close> and the network depend on when they
  are called: they take the number of earlier calls. \<open>base64_decode\<close> gives the decoded
  bytes, whose number is what it stores in \<open>*out_len\<close>. The functions returning \<open>bool\<close>
  and a \<open>CraggyResult\<close> by pointer give \<open>Inl\<close> of the result on \<open>false\<close>.
\<close>

record env =
  atoi :: "string \<Rightarrow> int"
  base64_decode :: "string \<Rightarrow> u8 list"
  clock_gettime :: "clockid \<Rightarrow> nat \<Rightarrow> timespec option"
  craggy_generateNonce :: "CraggyResult + u8 list"
  craggy_createRequest :: "u8 list \<Rightarrow> u8 list option"
  craggy_makeRequest :: "nat \<Rightarrow> string \<Rightarrow> u8 list \<Rightarrow> CraggyResult + u8 list"
  craggy_processResponse :: "u8 list \<Rightarrow> u8 list \<Rightarrow> u8 list \<Rightarrow> CraggyResult + (u64 \<times> u32)"

text \<open>
  Modelled from the spec: the macros \<open>CRAGGY_ROUGH_TIME_PUBLIC_KEY_LENGTH\<close> and
  \<open>CRAGGY_ROUGH_TIME_NONCE_LENGTH\<close> are defined in a header that is not among the
  sources; the specification fixes both the root public key and the nonce at exactly
  32 bytes.
\<close>

definition CRAGGY_ROUGH_TIME_PUBLIC_KEY_LENGTH :: nat where
  "CRAGGY_ROUGH_TIME_PUBLIC_KEY_LENGTH = 32"

definition CRAGGY_ROUGH_TIME_NONCE_LENGTH :: nat where
  "CRAGGY_ROUGH_TIME_NONCE_LENGTH = 32"

subsection \<open>Clocks\<close>

text \<open>\<open>TimeUs\<close>: \<open>None\<close> is the \<open>abort()\<close> taken when \<open>clock_gettime\<close> fails. The
  C division of \<open>tv_nsec\<close> truncates.\<close>

definition timespec_us :: "timespec \<Rightarrow> u64" where
  "timespec_us tv =
     (let ret = word_of_int (tv_sec tv);
          ret = ret * 1000000;
          ret = ret + word_of_int (sgn (tv_nsec tv) * (\<bar>tv_nsec tv\<bar> div 1000))
      in ret)"

definition TimeUs :: "env \<Rightarrow> clockid \<Rightarrow> world \<Rightarrow> u64 option \<times> world" where
  "TimeUs E clock w =
     (let w' = (emit (ClockGettime clock) w)\<lparr>clock_reads := Suc (clock_reads w)\<rparr>
      in case clock_gettime E clock (clock_reads w) of
           None \<Rightarrow> (None, w')
         | Some tv \<Rightarrow> (Some (timespec_us tv), w'))"

definition MonotonicUs :: "env \<Rightarrow> world \<Rightarrow> u64 option \<times> world" where
  "MonotonicUs E w = TimeUs E CLOCK_MONOTONIC w"

definition RealtimeUs :: "env \<Rightarrow> world \<Rightarrow> u64 option \<times> world" where
  "RealtimeUs E w = TimeUs E CLOCK_REALTIME w"

subsection \<open>The option loop\<close>

text \<open>What \<open>getopt_long\<close> returned: 0, one of the option characters, \<open>'?'\<close>, or any
  other value; with it the value of \<open>optarg\<close> (\<open>None\<close> is \<open>NULL\<close>).\<close>

datatype getopt = Opt_0 | Opt_h | Opt_n | Opt_k | Opt_i | Opt_r | Opt_p | Opt_unknown | Opt_other

type_synonym parsed = "flow \<times> pstate \<times> world"

definition case_h :: "string \<Rightarrow> pstate \<Rightarrow> world \<Rightarrow> parsed" where
  "case_h a st w =
     (let (p, st) = malloc (length a + 1) st;
          st = st\<lparr>hostname := Some p\<rparr>
      in case strcpy (hostname st) a st of
           None \<Rightarrow> (UndefinedBehaviour, st, w)
         | Some (q, st) \<Rightarrow> (Continue, st\<lparr>hostname := Some q\<rparr>, w))"

definition case_n :: "string \<Rightarrow> pstate \<Rightarrow> world \<Rightarrow> parsed" where
  "case_n a st w =
     (let (p, st) = malloc (length a + 1) st;
          st = st\<lparr>nonce := Some p\<rparr>
      in case strcpy (hostname st) a st of
           None \<Rightarrow> (UndefinedBehaviour, st, w)
         | Some (q, st) \<Rightarrow> (Continue, st\<lparr>nonce := Some q\<rparr>, w))"

definition case_k :: "string \<Rightarrow> pstate \<Rightarrow> world \<Rightarrow> parsed" where
  "case_k a st w =
     (let (p, st) = malloc (length a + 1) st;
          st = st\<lparr>publicKey := Some p\<rparr>
      in case strcpy (publicKey st) a st of
           None \<Rightarrow> (UndefinedBehaviour, st, w)
         | Some (q, st) \<Rightarrow> (Continue, st\<lparr>publicKey := Some q\<rparr>, w))"

text \<open>\<open>simulator.port_name\<close>, a \<open>char[256]\<close> of the global \<open>simulator\<close>, is block 0 of
  the two tester variants.\<close>

definition port_name :: nat where
  "port_name = 0"

definition case_p :: "variant \<Rightarrow> string \<Rightarrow> pstate \<Rightarrow> world \<Rightarrow> parsed" where
  "case_p v a st w =
     (case v of
        VCli \<Rightarrow> (Aborted, st, w)
      | VTester \<Rightarrow>
          (case strcpy (Some port_name) a st of
             None \<Rightarrow> (UndefinedBehaviour, st, w)
           | Some (q, st) \<Rightarrow> (Continue, st\<lparr>gpsPort := Some q\<rparr>, w))
      | VTesterSim \<Rightarrow>
          (case strcpy (Some port_name) a st of
             None \<Rightarrow> (UndefinedBehaviour, st, w)
           | Some (q, st) \<Rightarrow> (Continue, st, w))
      | VRoughtest \<Rightarrow>
          (let (p, st) = malloc (length a + 1) st;
               st = st\<lparr>gpsPort := Some p\<rparr>
           in case strcpy (gpsPort st) a st of
                None \<Rightarrow> (UndefinedBehaviour, st, w)
              | Some (q, st) \<Rightarrow> (Continue, st\<lparr>gpsPort := Some q\<rparr>, w)))"

text \<open>One turn of the \<open>switch\<close>. \<open>strlen\<close>, \<open>strcpy\<close> and \<open>atoi\<close> of a \<open>NULL\<close>
  \<open>optarg\<close> are undefined. The non-GNSS client has no \<open>'p'\<close> case: that value goes to
  \<open>default\<close>. The conversion of the \<open>int\<close> from \<open>atoi\<close> to \<open>uint8_t\<close> reduces modulo
  256.\<close>

definition handle_option :: "variant \<Rightarrow> env \<Rightarrow> getopt \<times> string option \<Rightarrow> pstate \<Rightarrow> world \<Rightarrow> parsed" where
  "handle_option v E opt st w =
     (case opt of
        (Opt_0, _) \<Rightarrow> (Continue, st, emit PrintOption w)
      | (Opt_unknown, _) \<Rightarrow> (Continue, st, w)
      | (Opt_other, _) \<Rightarrow> (Aborted, st, w)
      | (Opt_p, None) \<Rightarrow> (if v = VCli then Aborted else UndefinedBehaviour, st, w)
      | (_, None) \<Rightarrow> (UndefinedBehaviour, st, w)
      | (Opt_h, Some a) \<Rightarrow> case_h a st w
      | (Opt_n, Some a) \<Rightarrow> case_n a st w
      | (Opt_k, Some a) \<Rightarrow> case_k a st w
      | (Opt_i, Some a) \<Rightarrow>
          (let st = st\<lparr>intervals := word_of_int (atoi E a)\<rparr>
           in (Continue, st, emit (PrintPollEvery (intervals st)) w))
      | (Opt_r, Some a) \<Rightarrow>
          (let st = st\<lparr>repeats := word_of_int (atoi E a)\<rparr>
           in (Continue, st, emit (PrintPollTimes (repeats st)) w))
      | (Opt_p, Some a) \<Rightarrow> case_p v a st w)"

fun parse_options :: "variant \<Rightarrow> env \<Rightarrow> (getopt \<times> string option) list \<Rightarrow> pstate \<Rightarrow> world \<Rightarrow> parsed" where
  "parse_options v E [] st w = (Continue, st, w)"
| "parse_options v E (opt # opts) st w =
     (case handle_option v E opt st w of
        (Continue, st', w') \<Rightarrow> parse_options v E opts st' w'
      | r \<Rightarrow> r)"

definition init_state :: "variant \<Rightarrow> pstate" where
  "init_state v =
     \<lparr>heap = (if v = VTester \<or> v = VTesterSim then [\<lparr>cap = 256, content = []\<rparr>] else []),
      hostname = None, nonce = None, publicKey = None, gpsPort = None,
      repeats = 1, intervals = 1\<rparr>"

definition init_world :: world where
  "init_world = \<lparr>trace = [], clock_reads = 0, requests = 0\<rparr>"

subsection \<open>One exchange of the non-GNSS client (cli/main.c, body of the \<open>while\<close>)\<close>

definition kTenMinutes :: int where
  "kTenMinutes = 10 * 60 * 1000000"

text \<open>\<open>imaxabs\<close> on int64 values; the absolute value of the least int64 is not
  representable and the call is undefined.\<close>

definition imaxabs :: "int \<Rightarrow> int option" where
  "imaxabs x = (if x = - (2 ^ 63) then None else Some \<bar>x\<bar>)"

text \<open>
  The part after both \<open>craggy_makeRequest\<close> and \<open>craggy_processResponse\<close> succeeded:
  \<open>ts\<close> and \<open>rad\<close> are the \<open>timestamp\<close> and \<open>radius\<close> that \<open>craggy_processResponse\<close> wrote.
  \<open>system_offset\<close> is the uint64 difference converted to int64.
\<close>

definition report :: "env \<Rightarrow> u64 \<Rightarrow> u64 \<Rightarrow> u32 \<Rightarrow> world \<Rightarrow> flow \<times> world" where
  "report E start_us ts rad w =
     (case MonotonicUs E w of
        (None, w) \<Rightarrow> (Aborted, w)
      | (Some end_us, w) \<Rightarrow>
          (case RealtimeUs E w of
             (None, w) \<Rightarrow> (Aborted, w)
           | (Some end_realtime_us, w) \<Rightarrow>
               (let ts = ts + (end_us - start_us) div 2;
                    w = emit (PrintReply (end_us - start_us)) w;
                    w = emit (PrintCurrentTime ts rad) w;
                    system_offset = sint (ts - end_realtime_us);
                    w = emit (PrintOffset system_offset) w
                in case imaxabs system_offset of
                     None \<Rightarrow> (UndefinedBehaviour, w)
                   | Some a \<Rightarrow>
                       if a > kTenMinutes then (GotoError, w)
                       else (Continue, emit PrintStop w))))"

definition exchange :: "env \<Rightarrow> string \<Rightarrow> u8 list \<Rightarrow> u8 list \<Rightarrow> world \<Rightarrow> flow \<times> world" where
  "exchange E host nonceBytes rootPublicKey w =
     (case craggy_createRequest E nonceBytes of
        None \<Rightarrow> (Continue, w)
      | Some requestBuf \<Rightarrow>
          (let w = emit PrintStart w
           in case MonotonicUs E w of
                (None, w) \<Rightarrow> (Aborted, w)
              | (Some start_us, w) \<Rightarrow>
                  (let reply = craggy_makeRequest E (requests w) host requestBuf;
                       w = (emit (MakeRequest host requestBuf) w)\<lparr>requests := Suc (requests w)\<rparr>
                   in case reply of
                        Inl craggyResult \<Rightarrow> (GotoError, emit (PrintRequestError craggyResult) w)
                      | Inr responseBuf \<Rightarrow>
                          (case craggy_processResponse E nonceBytes rootPublicKey responseBuf of
                             Inl craggyResult \<Rightarrow> (GotoError, emit (PrintParseError craggyResult) w)
                           | Inr (ts, rad) \<Rightarrow> report E start_us ts rad w))))"

text \<open>\<open>while (repeats > 0) { ...; sleep(intervals); repeats = repeats - 1; }\<close>\<close>

function main_loop :: "env \<Rightarrow> string \<Rightarrow> u8 list \<Rightarrow> u8 list \<Rightarrow> u8 \<Rightarrow> u8 \<Rightarrow> world \<Rightarrow> flow \<times> world" where
  "main_loop E host nonceBytes rootPublicKey ivals reps w =
     (if reps > 0
      then (case exchange E host nonceBytes rootPublicKey w of
              (Continue, w') \<Rightarrow>
                main_loop E host nonceBytes rootPublicKey ivals (reps - 1) (emit (Sleep ivals) w')
            | r \<Rightarrow> r)
      else (Continue, w))"
  by pat_completeness auto
termination
  by (relation "measure (\<lambda>(E, host, nonceBytes, rootPublicKey, ivals, reps, w). unat reps)")
     (auto simp: unat_minus_one word_greater_zero_iff unat_gt_0)

declare main_loop.simps [simp del]

subsection \<open>\<open>main\<close> of the non-GNSS client\<close>

datatype status = Exit int | Abort | Undefined

text \<open>The nonce: the bytes decoded from the string \<open>nonce\<close> points to, or a generated one.\<close>

definition choose_nonce :: "env \<Rightarrow> pstate \<Rightarrow> world \<Rightarrow> (flow \<times> world) + u8 list" where
  "choose_nonce E st w =
     (case nonce st of
        Some q \<Rightarrow>
          (let decodedNonceBytes = base64_decode E (deref st q);
               outLen = length decodedNonceBytes
           in if outLen \<noteq> CRAGGY_ROUGH_TIME_NONCE_LENGTH
              then Inl (GotoError, emit (PrintNonceLength outLen) w)
              else Inr decodedNonceBytes)
      | None \<Rightarrow>
          (case craggy_generateNonce E of
             Inl craggyResult \<Rightarrow> Inl (GotoError, emit (PrintNonceError craggyResult) w)
           | Inr nonceBytes \<Rightarrow> Inr nonceBytes))"

text \<open>
  From the end of the option loop to the labels. \<open>result\<close> is set to 1 at its declaration and
  never assigned again; \<open>Inl\<close> is the early \<open>return 1\<close> of the usage message, \<open>Inr\<close> is the
  way through \<open>goto exit\<close> or \<open>goto error\<close>.
\<close>

definition after_options :: "env \<Rightarrow> pstate \<Rightarrow> world \<Rightarrow> (int \<times> world) + (flow \<times> world)" where
  "after_options E st w =
     (case (publicKey st, hostname st) of
        (Some k, Some h) \<Rightarrow>
          if repeats st < 1 then Inl (1, emit PrintUsage w)
          else
            (let ivals = (if repeats st = 1 then 0 else intervals st);
                 base64DecodedRootPublicKey = base64_decode E (deref st k);
                 base64DecodedRootPublicKeyLen = length base64DecodedRootPublicKey
             in if base64DecodedRootPublicKeyLen \<noteq> CRAGGY_ROUGH_TIME_PUBLIC_KEY_LENGTH
                then Inr (GotoError, emit (PrintKeyLength base64DecodedRootPublicKeyLen) w)
                else
                  (case choose_nonce E st w of
                     Inl r \<Rightarrow> Inr r
                   | Inr nonceBytes \<Rightarrow>
                       Inr (main_loop E (deref st h) nonceBytes base64DecodedRootPublicKey
                              ivals (repeats st) w)))
      | _ \<Rightarrow> Inl (1, emit PrintUsage w))"

text \<open>The labels \<open>error\<close> (\<open>assert(result != 0)\<close>) and \<open>exit\<close> (\<open>return result\<close>).\<close>

definition leave :: "int \<Rightarrow> flow \<times> world \<Rightarrow> status \<times> event list" where
  "leave result r =
     (case r of
        (Continue, w) \<Rightarrow> (Exit result, trace w)
      | (GotoError, w) \<Rightarrow> (if result \<noteq> 0 then Exit result else Abort, trace w)
      | (Aborted, w) \<Rightarrow> (Abort, trace w)
      | (UndefinedBehaviour, w) \<Rightarrow> (Undefined, trace w))"

definition main :: "env \<Rightarrow> (getopt \<times> string option) list \<Rightarrow> status \<times> event list" where
  "main E args =
     (let result = 1
      in case parse_options VCli E args (init_state VCli) init_world of
           (Continue, st, w) \<Rightarrow>
             (case after_options E st w of
                Inl (code, w) \<Rightarrow> (Exit code, trace w)
              | Inr r \<Rightarrow> leave result r)
         | (f, st, w) \<Rightarrow> leave result (f, w))"


fun reports_time :: "event \<Rightarrow> bool" where
  "reports_time (PrintCurrentTime t r) = True"
| "reports_time (PrintOffset d) = True"
| "reports_time (LogCraggyTimestamp t) = True"
| "reports_time (LogTimeDelta r) = True"
| "reports_time e = False"

text \<open>The argument of the last option among \<open>cs\<close>, or \<open>cur\<close> when none of them occurs.\<close>

fun supplied :: "getopt set \<Rightarrow> (getopt \<times> string option) list \<Rightarrow> string option \<Rightarrow> string option" where
  "supplied cs [] cur = cur"
| "supplied cs ((c, a) # opts) cur = supplied cs opts (if c \<in> cs then a else cur)"

text \<open>What a piece of \<open>main\<close> added to the trace.\<close>

definition new_events :: "world \<Rightarrow> world \<Rightarrow> event list" where
  "new_events w w' = drop (length (trace w)) (trace w')"

subsection \<open>One exchange of the roughtime-tester (src/unnamed/part_003)\<close>

text \<open>
  The body of \<open>if (simulator.tp_lock)\<close> up to \<open>repeats--\<close>. \<open>start_us\<close>, \<open>end_us\<close> and
  \<open>end_realtime_us\<close> are declared \<open>const uint32_t\<close>: the uint64 of \<open>MonotonicUs\<close> is
  converted on assignment (\<open>ucast\<close>), the subtraction and the division are done on
  32 bits, and the quotient is converted back for \<open>+=\<close> on the 64-bit \<open>timestamp\<close>.
  The two log lines with the GPS time are computed in floating point; only the integers
  they print are kept.
\<close>

definition tester_report :: "env \<Rightarrow> u32 \<Rightarrow> u64 \<Rightarrow> u32 \<Rightarrow> world \<Rightarrow> flow \<times> world" where
  "tester_report E start_us ts rad w =
     (case MonotonicUs E w of
        (None, w) \<Rightarrow> (Aborted, w)
      | (Some end64, w) \<Rightarrow>
          (case RealtimeUs E w of
             (None, w) \<Rightarrow> (Aborted, w)
           | (Some real64, w) \<Rightarrow>
               (let end_us = (ucast end64 :: u32);
                    end_realtime_us = (ucast real64 :: u32);
                    ts = ts + ucast ((end_us - start_us) div 2);
                    w = emit (LogCraggyTimestamp ts) w;
                    w = emit LogGpsTimestamp w;
                    w = emit (LogTimeDelta rad) w
                in (Continue, emit PrintStop w))))"

definition tester_exchange :: "env \<Rightarrow> string \<Rightarrow> u8 list \<Rightarrow> u8 list \<Rightarrow> world \<Rightarrow> flow \<times> world" where
  "tester_exchange E host nonceBytes rootPublicKey w =
     (case craggy_createRequest E nonceBytes of
        None \<Rightarrow> (Continue, w)
      | Some requestBuf \<Rightarrow>
          (let w = emit PrintStart w
           in case MonotonicUs E w of
                (None, w) \<Rightarrow> (Aborted, w)
              | (Some start64, w) \<Rightarrow>
                  (let start_us = (ucast start64 :: u32);
                       reply = craggy_makeRequest E (requests w) host requestBuf;
                       w = (emit (MakeRequest host requestBuf) w)\<lparr>requests := Suc (requests w)\<rparr>
                   in case reply of
                        Inl craggyResult \<Rightarrow> (GotoError, emit (PrintRequestError craggyResult) w)
                      | Inr responseBuf \<Rightarrow>
                          (case craggy_processResponse E nonceBytes rootPublicKey responseBuf of
                             Inl craggyResult \<Rightarrow> (GotoError, emit (PrintParseError craggyResult) w)
                           | Inr (ts, rad) \<Rightarrow> tester_report E start_us ts rad w))))"

section \<open>The response validator\<close>

text \<open>
  Modelled from the spec: \<open>craggy_processResponse\<close> is declared in CraggyClient.h and
  defined in the craggy library, neither of which is among the sources. What follows is
  section 4.4 of the specification, step by step. The wire codec, Ed25519, the hash, the
  four domain-separation prefixes and the decoders of the integer fields are parameters.
\<close>

datatype VerifyError =
  MalformedResponse | InvalidCertificateSignature | InvalidResponseSignature | MerklePathMismatch

type_synonym RTMessage = "(string \<times> u8 list) list"

record primitives =
  decode :: "u8 list \<Rightarrow> RTMessage option"
  ed25519_verify :: "u8 list \<Rightarrow> u8 list \<Rightarrow> u8 list \<Rightarrow> bool"
  hash :: "u8 list \<Rightarrow> u8 list"
  certificate_context :: "u8 list"
  response_context :: "u8 list"
  leaf_prefix :: "u8 list"
  node_prefix :: "u8 list"
  delegated_key :: "u8 list \<Rightarrow> u8 list"
  decode_u64 :: "u8 list \<Rightarrow> u64 option"
  decode_u32 :: "u8 list \<Rightarrow> u32 option"

record response =
  SIG :: "u8 list"
  DELE :: "u8 list"
  CERT_SIG :: "u8 list"
  INDX :: u32
  PATH :: "u8 list list"
  SREP :: "u8 list"
  ROOT :: "u8 list"
  MIDP :: u64
  RADI :: u32

text \<open>\<open>PATH\<close> is a concatenation of 32-byte hash values.\<close>

fun chunks32 :: "u8 list \<Rightarrow> u8 list list option" where
  "chunks32 xs =
     (if xs = [] then Some []
      else if length xs < 32 then None
      else map_option ((#) (take 32 xs)) (chunks32 (drop 32 xs)))"

declare chunks32.simps [simp del]

text \<open>Steps 1 and 2: the top-level message and the nested \<open>CERT\<close> and \<open>SREP\<close> maps.\<close>

definition parse_response :: "primitives \<Rightarrow> u8 list \<Rightarrow> response option" where
  "parse_response P response_bytes =
     Option.bind (decode P response_bytes) (\<lambda>top.
     Option.bind (map_of top ''SIG'') (\<lambda>sg.
     Option.bind (map_of top ''CERT'') (\<lambda>cert_bytes.
     Option.bind (map_of top ''INDX'') (\<lambda>indx_bytes.
     Option.bind (map_of top ''PATH'') (\<lambda>path_bytes.
     Option.bind (map_of top ''SREP'') (\<lambda>srep_bytes.
     Option.bind (decode P cert_bytes) (\<lambda>cert.
     Option.bind (decode P srep_bytes) (\<lambda>srep.
     Option.bind (map_of cert ''DELE'') (\<lambda>dele.
     Option.bind (map_of cert ''SIG'') (\<lambda>cert_sig.
     Option.bind (map_of srep ''ROOT'') (\<lambda>root.
     Option.bind (map_of srep ''MIDP'') (\<lambda>midp_bytes.
     Option.bind (map_of srep ''RADI'') (\<lambda>radi_bytes.
     Option.bind (decode_u32 P indx_bytes) (\<lambda>indx.
     Option.bind (chunks32 path_bytes) (\<lambda>path.
     Option.bind (decode_u64 P midp_bytes) (\<lambda>midp.
     Option.bind (decode_u32 P radi_bytes) (\<lambda>radi.
       Some \<lparr>SIG = sg, DELE = dele, CERT_SIG = cert_sig, INDX = indx, PATH = path,
             SREP = srep_bytes, ROOT = root, MIDP = midp, RADI = radi\<rparr>)))))))))))))))))"

text \<open>Step 3: the certificate signature, by the root key, in the certificate context.\<close>

definition certificate_signature_ok :: "primitives \<Rightarrow> u8 list \<Rightarrow> response \<Rightarrow> bool" where
  "certificate_signature_ok P root_public_key r =
     ed25519_verify P root_public_key (certificate_context P @ DELE r) (CERT_SIG r)"

text \<open>Step 4: the response signature, by the delegated key, in the response context.\<close>

definition response_signature_ok :: "primitives \<Rightarrow> response \<Rightarrow> bool" where
  "response_signature_ok P r =
     ed25519_verify P (delegated_key P (DELE r)) (response_context P @ SREP r) (SIG r)"

text \<open>Steps 5 and 6: the leaf hash of the expected nonce, then the walk along \<open>PATH\<close>,
  one bit of \<open>INDX\<close> per level (a clear bit puts the running hash on the left).\<close>

definition leaf_hash :: "primitives \<Rightarrow> u8 list \<Rightarrow> u8 list" where
  "leaf_hash P expected_nonce = hash P (leaf_prefix P @ expected_nonce)"

fun merkle_walk :: "primitives \<Rightarrow> u8 list \<Rightarrow> u8 list list \<Rightarrow> u32 \<Rightarrow> u8 list" where
  "merkle_walk P h [] indx = h"
| "merkle_walk P h (sibling # path) indx =
     merkle_walk P
       (if indx AND 1 = 0 then hash P (node_prefix P @ h @ sibling)
        else hash P (node_prefix P @ sibling @ h))
       path (drop_bit 1 indx)"

definition merkle_path_ok :: "primitives \<Rightarrow> u8 list \<Rightarrow> response \<Rightarrow> bool" where
  "merkle_path_ok P expected_nonce r =
     (merkle_walk P (leaf_hash P expected_nonce) (PATH r) (INDX r) = ROOT r)"

text \<open>
  Modelled from the spec: the body of \<open>craggy_processResponse\<close>, which the sources do not
  contain, as the \<open>verify\<close> of section 4.4. Step 1 is the failure of the parse, steps 3 to 6
  are the three checks in the order of the specification, step 7 gives the midpoint and the
  radius only after the three checks.
\<close>

definition verify :: "primitives \<Rightarrow> u8 list \<Rightarrow> u8 list \<Rightarrow> u8 list \<Rightarrow> VerifyError + (u64 \<times> u32)" where
  "verify P response_bytes expected_nonce root_public_key =
     (case parse_response P response_bytes of
        None \<Rightarrow> Inl MalformedResponse
      | Some r \<Rightarrow>
          if \<not> certificate_signature_ok P root_public_key r then Inl InvalidCertificateSignature
          else if \<not> response_signature_ok P r then Inl InvalidResponseSignature
          else if \<not> merkle_path_ok P expected_nonce r then Inl MerklePathMismatch
          else Inr (MIDP r, RADI r))"

text \<open>
  Modelled from the spec: \<open>craggy_processResponse(nonce, rootPublicKey, responseBuf, ...)\<close>
  as the clients call it, the library function not being among the sources: \<open>verify\<close>
  with the client's argument order, its error kinds reported as \<open>CraggyResult\<close> values by
  \<open>code\<close>.
\<close>

definition library_processResponse ::
  "primitives \<Rightarrow> (VerifyError \<Rightarrow> CraggyResult) \<Rightarrow> u8 list \<Rightarrow> u8 list \<Rightarrow> u8 list \<Rightarrow> CraggyResult + (u64 \<times> u32)" where
  "library_processResponse P code nonceBytes rootPublicKey responseBuf =
     (case verify P responseBuf nonceBytes rootPublicKey of
        Inl e \<Rightarrow> Inl (code e)
      | Inr v \<Rightarrow> Inr v)"

section \<open>A sample environment\<close>

text \<open>
  An environment to run the clients on: a decoder that gives one byte per character, a
  clock that shows \<open>boot\<close> seconds at its first reading and advances one second per
  reading, a transport that echoes the request, and a
  validator that accepts every response with the given server time and a radius of
  10000 microseconds.
\<close>

definition sample_env :: "int \<Rightarrow> u64 \<Rightarrow> env" where
  "sample_env boot server_time =
     \<lparr>atoi = (\<lambda>a. 2),
      base64_decode = map (\<lambda>c. of_nat (of_char c)),
      clock_gettime = (\<lambda>c n. Some \<lparr>tv_sec = boot + int n, tv_nsec = 0\<rparr>),
      craggy_generateNonce = Inr (replicate 32 1),
      craggy_createRequest = (\<lambda>n. Some n),
      craggy_makeRequest = (\<lambda>k h r. Inr r),
      craggy_processResponse = (\<lambda>n k r. Inr (server_time, 10000))\<rparr>"

text \<open>
  Stand-ins for the cryptographic primitives, to run the validator on: a codec that knows
  three messages (a response with an empty \<open>PATH\<close>, its certificate and its signed part),
  a signature that is the key followed by the message, a hash that is the identity, and
  integer decoders that give the midpoint 1625585148000000 and the radius 10000. The
  response is valid for the root key \<open>[5]\<close> and the nonce \<open>[6]\<close>.
\<close>

definition sample_primitives :: primitives where
  "sample_primitives =
     \<lparr>decode = (\<lambda>bs.
         if bs = [0] then Some [(''CERT'', [1]), (''INDX'', [0]), (''PATH'', []),
                                (''SIG'', [3, 11, 2]), (''SREP'', [2])]
         else if bs = [1] then Some [(''DELE'', [3]), (''SIG'', [5, 10, 3])]
         else if bs = [2] then Some [(''MIDP'', [0]), (''RADI'', [0]), (''ROOT'', [0, 6])]
         else None),
      ed25519_verify = (\<lambda>key msg sg. sg = key @ msg),
      hash = (\<lambda>bs. bs),
      certificate_context = [10],
      response_context = [11],
      leaf_prefix = [0],
      node_prefix = [1],
      delegated_key = (\<lambda>dele. dele),
      decode_u64 = (\<lambda>bs. Some 1625585148000000),
      decode_u32 = (\<lambda>bs. if bs = [0] then Some 10000 else None)\<rparr>"

definition sample_response :: response where
  "sample_response =
     \<lparr>SIG = [3, 11, 2], DELE = [3], CERT_SIG = [5, 10, 3], INDX = 10000, PATH = [],
      SREP = [2], ROOT = [0, 6], MIDP = 1625585148000000, RADI = 10000\<rparr>"

text \<open>The sample environment with the validator of the specification on these primitives
  and a transport that always answers with the sample response.\<close>

definition validating_env :: env where
  "validating_env =
     (sample_env 1625585148 0)
       \<lparr>craggy_makeRequest := (\<lambda>k h r. Inr [0]),
        craggy_processResponse :=
          library_processResponse sample_primitives (\<lambda>e. CraggyResultOther 1)\<rparr>"

subsection \<open>Invariant of the option loop\<close>

text \<open>
  The strings the three pointers designate, and what the option loop keeps true of the
  pointers: they point into the heap, the block of \<open>publicKey\<close> is neither that of
  \<open>hostname\<close> nor that of \<open>nonce\<close>, and none of them is \<open>simulator.port_name\<close>, which
  is a block of the heap in the variants that have it.
\<close>

definition hostname_str :: "pstate \<Rightarrow> string option" where
  "hostname_str st = map_option (deref st) (hostname st)"

definition nonce_str :: "pstate \<Rightarrow> string option" where
  "nonce_str st = map_option (deref st) (nonce st)"

definition publicKey_str :: "pstate \<Rightarrow> string option" where
  "publicKey_str st = map_option (deref st) (publicKey st)"

definition has_port_name :: "variant \<Rightarrow> bool" where
  "has_port_name v = (v = VTester \<or> v = VTesterSim)"

definition valid_ptr :: "variant \<Rightarrow> pstate \<Rightarrow> ptr \<Rightarrow> bool" where
  "valid_ptr v st q =
     (case q of None \<Rightarrow> True
      | Some p \<Rightarrow> p < length (heap st) \<and> (has_port_name v \<longrightarrow> p \<noteq> port_name))"

definition wf_state :: "variant \<Rightarrow> pstate \<Rightarrow> bool" where
  "wf_state v st =
     (valid_ptr v st (hostname st) \<and> valid_ptr v st (nonce st) \<and> valid_ptr v st (publicKey st)
      \<and> (publicKey st \<noteq> None \<longrightarrow> publicKey st \<noteq> hostname st \<and> publicKey st \<noteq> nonce st)
      \<and> (has_port_name v \<longrightarrow> port_name < length (heap st)))"

text \<open>The events of the request and response part of an exchange.\<close>

fun is_exchange_event :: "event \<Rightarrow> bool" where
  "is_exchange_event PrintOption = False"
| "is_exchange_event (PrintPollEvery i) = False"
| "is_exchange_event (PrintPollTimes r) = False"
| "is_exchange_event PrintUsage = False"
| "is_exchange_event (PrintKeyLength n) = False"
| "is_exchange_event (PrintNonceLength n) = False"
| "is_exchange_event (PrintNonceError c) = False"
| "is_exchange_event e = True"

text \<open>What one turn of the \<open>switch\<close> that falls through does to the pointers and to the
  strings they designate.\<close>

definition step_spec :: "variant \<Rightarrow> getopt \<Rightarrow> string option \<Rightarrow> pstate \<Rightarrow> pstate \<Rightarrow> bool" where
  "step_spec v c a st st' =
     (wf_state v st'
       \<and> hostname_str st' = (if c \<in> {Opt_h, Opt_n} then a else hostname_str st)
       \<and> nonce_str st' = (if c = Opt_n then a else nonce_str st)
       \<and> publicKey_str st' = (if c = Opt_k then a else publicKey_str st)
       \<and> (c = Opt_n \<longrightarrow> nonce st' = hostname st' \<and> hostname st \<noteq> None)
       \<and> (c \<notin> {Opt_h, Opt_n} \<longrightarrow> nonce st' = nonce st)
       \<and> (c \<noteq> Opt_h \<longrightarrow> hostname st' = hostname st)
       \<and> (c \<noteq> Opt_k \<longrightarrow> publicKey st' = publicKey st)
       \<and> (c \<noteq> Opt_r \<longrightarrow> repeats st' = repeats st)
       \<and> (c \<in> {Opt_h, Opt_n, Opt_k} \<longrightarrow> a \<noteq> None))"

text \<open>Options to run the non-GNSS client on: a host of 48 characters, a key of 32 and a
  nonce of \<open>n\<close>, in that order.\<close>

definition sample_host :: string where
  "sample_host = ''a-very-long-roughtime-host-name.example.net:2002''"

definition sample_args :: "nat \<Rightarrow> (getopt \<times> string option) list" where
  "sample_args n =
     [(Opt_h, Some sample_host), (Opt_k, Some (replicate 32 CHR ''K'')),
      (Opt_n, Some (replicate n CHR ''N''))]"

section \<open>Properties of the timestamp conversion\<close>

lemmas conv_defs =
  craggy_roughtimeToEpoc_def NUMBER_OF_JULIAN_DAYS_UNTIL_EPOCH_def
  NUMBER_OF_MICROSECONDS_IN_SECOND_def NUMBER_OF_SECONDS_IN_A_DAY_def Let_def

lemma low40_word: "drop_bit 24 (push_bit 24 (t::u64)) = take_bit 40 t"
  by (rule bit_word_eqI) (auto simp add: bit_simps)

lemma uint_low40: "uint (drop_bit 24 (push_bit 24 (t::u64))) = us_since_midnight t"
  by (simp add: low40_word us_since_midnight_def take_bit_eq_mod uint_mod_distrib)

lemma uint_mjd: "uint (drop_bit 40 (t::u64)) = mjd_of t"
  by (simp add: mjd_of_def drop_bit_eq_div uint_div_distrib)

lemma us_bounds: "0 \<le> us_since_midnight t" "us_since_midnight t < 2 ^ 40"
  by (simp_all add: us_since_midnight_def)

lemma mjd_bounds: "0 \<le> mjd_of t" "mjd_of t < 2 ^ 24"
proof -
  show "0 \<le> mjd_of t" by (simp add: mjd_of_def pos_imp_zdiv_nonneg_iff)
  have "uint t < 2 ^ 64" using uint_bounded [of t] by simp
  then show "mjd_of t < 2 ^ 24" unfolding mjd_of_def by simp
qed

lemma uint_frac:
  "uint ((drop_bit 24 (push_bit 24 (t::u64)) + rtt div 2) div 1000000)
     = (us_since_midnight t + uint rtt div 2) div 1000000"
proof -
  have r: "uint (rtt div 2) = uint rtt div 2" by (simp add: uint_div_distrib)
  have "uint rtt < 2 ^ 64" using uint_bounded [of rtt] by simp
  then have h: "uint rtt div 2 < 2 ^ 63" by simp
  have "uint (drop_bit 24 (push_bit 24 t) + rtt div 2)
          = (us_since_midnight t + uint rtt div 2) mod 2 ^ 64"
    by (simp add: uint_word_ariths uint_low40 r)
  also have "\<dots> = us_since_midnight t + uint rtt div 2"
    using us_bounds [of t] h by (simp add: mod_pos_pos_trivial)
  finally show ?thesis by (simp add: uint_div_distrib)
qed

lemma frac_bounds:
  "0 \<le> (us_since_midnight t + uint (rtt::u64) div 2) div 1000000"
  "(us_since_midnight t + uint (rtt::u64) div 2) div 1000000 < 2 ^ 63"
proof -
  have "uint rtt < 2 ^ 64" using uint_bounded [of rtt] by simp
  then have h: "uint rtt div 2 < 2 ^ 63" by simp
  have p: "0 \<le> uint rtt div 2" by (simp add: pos_imp_zdiv_nonneg_iff)
  show "0 \<le> (us_since_midnight t + uint rtt div 2) div 1000000"
    using us_bounds(1) [of t] p by (simp add: pos_imp_zdiv_nonneg_iff)
  show "(us_since_midnight t + uint rtt div 2) div 1000000 < 2 ^ 63"
    using us_bounds [of t] h p by simp
qed

lemma conv_general:
  "uint (snd (craggy_roughtimeToEpoc r rtt)) = epoch_seconds (time r) rtt mod 2 ^ 64"
proof -
  have "uint (snd (craggy_roughtimeToEpoc r rtt))
      = (uint ((drop_bit 40 (time r) - 40587) * 86400)
           + uint ((drop_bit 24 (push_bit 24 (time r)) + rtt div 2) div 1000000)) mod 2 ^ 64"
    by (simp add: conv_defs uint_word_ariths)
  also have "uint ((drop_bit 40 (time r) - 40587) * 86400)
      = ((mjd_of (time r) - 40587) * 86400) mod 2 ^ 64"
    by (simp add: uint_word_ariths uint_mjd mod_simps)
  finally show ?thesis
    by (simp only: uint_frac mod_simps epoch_seconds_def days_since_epoch_def)
qed

lemma epoch_seconds_bounds:
  "- (2 ^ 63) < epoch_seconds t rtt" "epoch_seconds t rtt < 2 ^ 64"
  using mjd_bounds [of t] frac_bounds [of t rtt]
  by (simp_all add: epoch_seconds_def days_since_epoch_def)

text \<open>
  Claim C1. For the fixture of the unit test (raw timestamp 65312145749359830, round trip
  1000000 microseconds) the converter returns success and writes 1625585148, which is
  (days since epoch * 86400000000 + microseconds since midnight + round trip / 2)
  divided by 1000000 for that input.
\<close>

theorem roughtimeToEpoc_fixture:
  "craggy_roughtimeToEpoc \<lparr>time = 65312145749359830, radius = 10000\<rparr> 1000000
     = (CraggyResultSuccess, 1625585148)
   \<and> (1625585148 :: int)
     = (days_since_epoch 65312145749359830 * 86400000000
          + us_since_midnight 65312145749359830 + 1000000 div 2) div 1000000"
  by (simp add: conv_defs days_since_epoch_def mjd_of_def us_since_midnight_def)

text \<open>
  Claim C2, as stated, fails: the value returned is not the epoch time in microseconds.
  At the fixture the code returns 1625585148, while the microsecond value of the
  specification is 1625585148337654.
\<close>

theorem roughtimeToEpoc_not_microseconds:
  "uint (snd (craggy_roughtimeToEpoc \<lparr>time = 65312145749359830, radius = 10000\<rparr> 1000000))
     \<noteq> spec_epoch_us 65312145749359830 1000000"
  by (simp add: conv_defs spec_epoch_us_def days_since_epoch_def mjd_of_def
      us_since_midnight_def)

text \<open>
  Claim C2, amended. For every raw timestamp and every round trip, with the upper 24 bits
  read as the Modified Julian Day and the lower 40 bits as microseconds since midnight,
  the converter returns epoch SECONDS: (MJD - 40587) * 86400 plus
  (microseconds since midnight + round trip / 2) divided by 1000000, reduced modulo
  2^64 as uint64 arithmetic does.
\<close>

theorem roughtimeToEpoc_epoch_seconds:
  "uint (snd (craggy_roughtimeToEpoc r round_trip_us))
     = ((uint (time r) div 2 ^ 40 - 40587) * 86400
          + (uint (time r) mod 2 ^ 40 + uint round_trip_us div 2) div 1000000) mod 2 ^ 64"
  using conv_general [of r round_trip_us]
  by (simp add: epoch_seconds_def days_since_epoch_def mjd_of_def us_since_midnight_def)

text \<open>
  Claim C4, as stated, fails: a raw timestamp of 0 has MJD 0 < 40587, the day
  subtraction wraps, and the converter still returns success, with the wrapped value
  2^64 - 40587 * 86400.
\<close>

theorem roughtimeToEpoc_wraps_silently:
  "mjd_of 0 < 40587
   \<and> craggy_roughtimeToEpoc \<lparr>time = 0, radius = 0\<rparr> 0
       = (CraggyResultSuccess, 18446744070202834816)"
  by (simp add: conv_defs mjd_of_def)

text \<open>
  Claim C4, amended. The converter detects no overflow: it returns success for every
  input. Whenever the epoch seconds (MJD - 40587) * 86400 +
  (microseconds since midnight + round trip / 2) / 1000000 are negative, which needs
  MJD < 40587, the value written is that number plus 2^64 (wrapped); otherwise the
  value written is exact.
\<close>

theorem roughtimeToEpoc_no_overflow_check:
  "fst (craggy_roughtimeToEpoc r round_trip_us) = CraggyResultSuccess
   \<and> uint (snd (craggy_roughtimeToEpoc r round_trip_us))
       = (if epoch_seconds (time r) round_trip_us < 0
          then epoch_seconds (time r) round_trip_us + 2 ^ 64
          else epoch_seconds (time r) round_trip_us)
   \<and> (epoch_seconds (time r) round_trip_us < 0 \<longrightarrow> mjd_of (time r) < 40587)"
proof (intro conjI)
  show "fst (craggy_roughtimeToEpoc r round_trip_us) = CraggyResultSuccess"
    by (simp add: conv_defs)
  let ?v = "epoch_seconds (time r) round_trip_us"
  have b: "- (2 ^ 63) < ?v" "?v < 2 ^ 64"
    using epoch_seconds_bounds [of "time r" round_trip_us] by simp_all
  show "uint (snd (craggy_roughtimeToEpoc r round_trip_us))
       = (if ?v < 0 then ?v + 2 ^ 64 else ?v)"
  proof (cases "?v < 0")
    case True
    have "(?v + 2 ^ 64) mod 2 ^ 64 = ?v + 2 ^ 64"
      using b True by (intro mod_pos_pos_trivial) simp_all
    then have "?v mod 2 ^ 64 = ?v + 2 ^ 64" by simp
    with True show ?thesis by (simp add: conv_general)
  next
    case False
    then have "?v mod 2 ^ 64 = ?v" using b by (intro mod_pos_pos_trivial) simp_all
    with False show ?thesis by (simp add: conv_general)
  qed
  show "?v < 0 \<longrightarrow> mjd_of (time r) < 40587"
    using frac_bounds(1) [of "time r" round_trip_us]
    by (auto simp add: epoch_seconds_def days_since_epoch_def not_less
        intro!: add_nonneg_nonneg)
qed

theorem roughtimeToEpoc_no_overflow_check_witness:
  "epoch_seconds 0 0 < 0
   \<and> craggy_roughtimeToEpoc \<lparr>time = 0, radius = 0\<rparr> 0
        = (CraggyResultSuccess, word_of_int (epoch_seconds 0 0 + 2 ^ 64))
   \<and> mjd_of 0 < 40587"
proof -
  have neg: "epoch_seconds 0 0 < 0"
    by (simp add: epoch_seconds_def days_since_epoch_def mjd_of_def us_since_midnight_def)
  from roughtimeToEpoc_no_overflow_check [of "\<lparr>time = 0, radius = 0\<rparr>" 0] neg
  have "mjd_of 0 < 40587" by simp
  moreover have "craggy_roughtimeToEpoc \<lparr>time = 0, radius = 0\<rparr> 0
        = (CraggyResultSuccess, word_of_int (epoch_seconds 0 0 + 2 ^ 64))"
    by (simp add: conv_defs epoch_seconds_def days_since_epoch_def mjd_of_def
        us_since_midnight_def)
  ultimately show ?thesis using neg by simp
qed

section \<open>Properties of the exchange\<close>

lemma trace_emit [simp]: "trace (emit e w) = trace w @ [e]"
  and clock_reads_emit [simp]: "clock_reads (emit e w) = clock_reads w"
  and requests_emit [simp]: "requests (emit e w) = requests w"
  by (simp_all add: emit_def)

lemma TimeUs_Some:
  "clock_gettime E c (clock_reads w) = Some tv \<Longrightarrow>
   TimeUs E c w = (Some (timespec_us tv), (emit (ClockGettime c) w)\<lparr>clock_reads := Suc (clock_reads w)\<rparr>)"
  by (simp add: TimeUs_def)

lemma TimeUs_trace:
  "TimeUs E c w = (r, w') \<Longrightarrow> trace w' = trace w @ [ClockGettime c] \<and> requests w' = requests w
     \<and> clock_reads w' = Suc (clock_reads w)"
  by (auto simp add: TimeUs_def Let_def split: option.splits)

lemma new_events_app: "trace w' = trace w @ es \<Longrightarrow> new_events w w' = es"
  by (simp add: new_events_def)

lemma report_success:
  assumes "clock_gettime E CLOCK_MONOTONIC (clock_reads w) = Some tv2"
      and "clock_gettime E CLOCK_REALTIME (Suc (clock_reads w)) = Some tv3"
  shows "report E s ts rad w =
     (let e = timespec_us tv2; r = timespec_us tv3; est = ts + (e - s) div 2;
          off = sint (est - r);
          w' = (w\<lparr>trace := trace w @ [ClockGettime CLOCK_MONOTONIC, ClockGettime CLOCK_REALTIME,
                  PrintReply (e - s), PrintCurrentTime est rad, PrintOffset off],
                  clock_reads := Suc (Suc (clock_reads w))\<rparr>)
      in if off = - (2 ^ 63) then (UndefinedBehaviour, w')
         else if \<bar>off\<bar> > 600000000 then (GotoError, w')
         else (Continue, emit PrintStop w'))"
  using assms
  by (simp add: report_def MonotonicUs_def RealtimeUs_def TimeUs_Some Let_def imaxabs_def
      kTenMinutes_def emit_def)

lemma exchange_success:
  assumes "craggy_createRequest E nb = Some req"
      and "clock_gettime E CLOCK_MONOTONIC (clock_reads w) = Some tv1"
      and "craggy_makeRequest E (requests w) host req = Inr resp"
      and "craggy_processResponse E nb pk resp = Inr (ts, rad)"
      and "clock_gettime E CLOCK_MONOTONIC (Suc (clock_reads w)) = Some tv2"
      and "clock_gettime E CLOCK_REALTIME (Suc (Suc (clock_reads w))) = Some tv3"
  shows "exchange E host nb pk w =
     (let s = timespec_us tv1; e = timespec_us tv2; r = timespec_us tv3;
          est = ts + (e - s) div 2;
          off = sint (est - r);
          w' = (w\<lparr>trace := trace w @ [PrintStart, ClockGettime CLOCK_MONOTONIC, MakeRequest host req,
                  ClockGettime CLOCK_MONOTONIC, ClockGettime CLOCK_REALTIME,
                  PrintReply (e - s), PrintCurrentTime est rad, PrintOffset off],
                  clock_reads := Suc (Suc (Suc (clock_reads w))), requests := Suc (requests w)\<rparr>)
      in if off = - (2 ^ 63) then (UndefinedBehaviour, w')
         else if \<bar>off\<bar> > 600000000 then (GotoError, w')
         else (Continue, emit PrintStop w'))"
  using assms
  by (simp add: exchange_def MonotonicUs_def TimeUs_Some Let_def report_success emit_def)

lemma report_trace:
  "report E s ts rad w = (f, w') \<Longrightarrow> \<exists>es. trace w' = trace w @ es"
  by (auto simp add: report_def MonotonicUs_def RealtimeUs_def Let_def
      split: option.splits prod.splits if_splits dest!: TimeUs_trace)

lemma exchange_trace:
  "exchange E host nb pk w = (f, w') \<Longrightarrow> \<exists>es. trace w' = trace w @ es"
  by (auto simp add: exchange_def MonotonicUs_def Let_def
      split: option.splits prod.splits if_splits sum.splits dest!: TimeUs_trace report_trace)

lemma half_rtt_int:
  fixes ts s e :: u64
  assumes "uint s \<le> uint e" and "uint ts + (uint e - uint s) div 2 < 2 ^ 64"
  shows "uint (ts + (e - s) div 2) = uint ts + (uint e - uint s) div 2"
proof -
  have e: "uint e < 2 ^ 64" using uint_bounded [of e] by simp
  have s0: "0 \<le> uint s" by simp
  have "uint (e - s) = (uint e - uint s) mod 2 ^ 64" by (simp add: uint_word_ariths)
  also have "\<dots> = uint e - uint s"
  proof (rule mod_pos_pos_trivial)
    show "0 \<le> uint e - uint s" using assms(1) by simp
    show "uint e - uint s < 2 ^ 64" using e uint_ge_0 [of s] by linarith
  qed
  finally have d: "uint ((e - s) div 2) = (uint e - uint s) div 2" by (simp add: uint_div_distrib)
  have nn: "0 \<le> uint ts + (uint e - uint s) div 2" using assms(1) by simp
  have "uint (ts + (e - s) div 2) = (uint ts + (uint e - uint s) div 2) mod 2 ^ 64"
    by (simp add: uint_word_ariths d)
  also have "\<dots> = uint ts + (uint e - uint s) div 2"
    using assms(2) nn by (intro mod_pos_pos_trivial) simp_all
  finally show ?thesis .
qed

text \<open>
  Claim C8. In an exchange of the non-GNSS client where the request is built, sent and
  answered and the response is validated, the monotonic clock is read before the request
  is handed to the transport and again after the response has been validated, and the
  time printed is the server's timestamp plus half of the difference of the two readings
  (uint64 arithmetic; the same number over the integers when the clock did not go back
  and the sum fits 64 bits).
\<close>

theorem exchange_estimate_half_round_trip:
  assumes "craggy_createRequest E nonceBytes = Some req"
      and "clock_gettime E CLOCK_MONOTONIC (clock_reads w) = Some tv1"
      and "craggy_makeRequest E (requests w) host req = Inr resp"
      and "craggy_processResponse E nonceBytes rootPublicKey resp = Inr (ts, rad)"
      and "clock_gettime E CLOCK_MONOTONIC (Suc (clock_reads w)) = Some tv2"
      and "clock_gettime E CLOCK_REALTIME (Suc (Suc (clock_reads w))) = Some tv3"
  shows "take 7 (new_events w (snd (exchange E host nonceBytes rootPublicKey w))) =
           [PrintStart, ClockGettime CLOCK_MONOTONIC, MakeRequest host req,
            ClockGettime CLOCK_MONOTONIC, ClockGettime CLOCK_REALTIME,
            PrintReply (timespec_us tv2 - timespec_us tv1),
            PrintCurrentTime (ts + (timespec_us tv2 - timespec_us tv1) div 2) rad]
         \<and> (uint (timespec_us tv1) \<le> uint (timespec_us tv2)
              \<and> uint ts + (uint (timespec_us tv2) - uint (timespec_us tv1)) div 2 < 2 ^ 64
            \<longrightarrow> uint (ts + (timespec_us tv2 - timespec_us tv1) div 2)
                  = uint ts + (uint (timespec_us tv2) - uint (timespec_us tv1)) div 2)"
proof
  show "take 7 (new_events w (snd (exchange E host nonceBytes rootPublicKey w))) =
           [PrintStart, ClockGettime CLOCK_MONOTONIC, MakeRequest host req,
            ClockGettime CLOCK_MONOTONIC, ClockGettime CLOCK_REALTIME,
            PrintReply (timespec_us tv2 - timespec_us tv1),
            PrintCurrentTime (ts + (timespec_us tv2 - timespec_us tv1) div 2) rad]"
    by (simp add: exchange_success [OF assms] Let_def new_events_def)
  show "uint (timespec_us tv1) \<le> uint (timespec_us tv2)
              \<and> uint ts + (uint (timespec_us tv2) - uint (timespec_us tv1)) div 2 < 2 ^ 64
            \<longrightarrow> uint (ts + (timespec_us tv2 - timespec_us tv1) div 2)
                  = uint ts + (uint (timespec_us tv2) - uint (timespec_us tv1)) div 2"
    using half_rtt_int by blast
qed

theorem exchange_estimate_half_round_trip_witness:
  "take 7 (new_events init_world (snd (exchange (sample_env 1625585148 1625585148000000) ''host:2002'' (replicate 32 1) (replicate 32 2) init_world))) =
           [PrintStart, ClockGettime CLOCK_MONOTONIC, MakeRequest ''host:2002'' (replicate 32 1),
            ClockGettime CLOCK_MONOTONIC, ClockGettime CLOCK_REALTIME,
            PrintReply 1000000,
            PrintCurrentTime 1625585148500000 10000]
   \<and> uint (1625585148500000 :: u64) = 1625585148000000 + (1625585149000000 - 1625585148000000) div 2"
proof -
  let ?E = "sample_env 1625585148 1625585148000000"
  have 1: "craggy_createRequest ?E (replicate 32 1) = Some (replicate 32 1)"
    by (simp add: sample_env_def)
  have 2: "clock_gettime ?E CLOCK_MONOTONIC (clock_reads init_world) = Some \<lparr>tv_sec = 1625585148, tv_nsec = 0\<rparr>"
    by (simp add: sample_env_def init_world_def)
  have 3: "craggy_makeRequest ?E (requests init_world) ''host:2002'' (replicate 32 1) = Inr (replicate 32 1)"
    by (simp add: sample_env_def)
  have 4: "craggy_processResponse ?E (replicate 32 1) (replicate 32 2) (replicate 32 1) = Inr (1625585148000000, 10000)"
    by (simp add: sample_env_def)
  have 5: "clock_gettime ?E CLOCK_MONOTONIC (Suc (clock_reads init_world)) = Some \<lparr>tv_sec = 1625585149, tv_nsec = 0\<rparr>"
    by (simp add: sample_env_def init_world_def)
  have 6: "clock_gettime ?E CLOCK_REALTIME (Suc (Suc (clock_reads init_world))) = Some \<lparr>tv_sec = 1625585150, tv_nsec = 0\<rparr>"
    by (simp add: sample_env_def init_world_def)
  show ?thesis
    using exchange_estimate_half_round_trip [OF 1 2 3 4 5 6]
    by (simp add: timespec_us_def Let_def)
qed

lemma sint_diff_int:
  fixes a b :: u64
  assumes "- (2 ^ 63) \<le> uint a - uint b" and "uint a - uint b < 2 ^ 63"
  shows "sint (a - b) = uint a - uint b"
proof -
  have "sint (a - b) = signed_take_bit 63 (take_bit 64 (uint a - uint b))"
    by (simp add: sint_uint uint_word_arith_bintrs)
  also have "\<dots> = signed_take_bit 63 (uint a - uint b)"
    by (simp add: signed_take_bit_take_bit)
  also have "\<dots> = uint a - uint b"
    using assms by (intro signed_take_bit_int_eq_self) simp_all
  finally show ?thesis .
qed

lemma main_loop_stop:
  assumes "0 < reps" and "exchange E host nb pk w = (f, w')" and "f \<noteq> Continue"
  shows "main_loop E host nb pk ivals reps w = (f, w')"
  using assms by (subst main_loop.simps) (cases f; simp)

lemma main_loop_step:
  assumes "0 < reps" and "exchange E host nb pk w = (Continue, w')"
  shows "main_loop E host nb pk ivals reps w
           = main_loop E host nb pk ivals (reps - 1) (emit (Sleep ivals) w')"
  using assms by (subst main_loop.simps) simp




lemma tester_exchange_success:
  assumes "craggy_createRequest E nb = Some req"
      and "clock_gettime E CLOCK_MONOTONIC (clock_reads w) = Some tv1"
      and "craggy_makeRequest E (requests w) host req = Inr resp"
      and "craggy_processResponse E nb pk resp = Inr (ts, rad)"
      and "clock_gettime E CLOCK_MONOTONIC (Suc (clock_reads w)) = Some tv2"
      and "clock_gettime E CLOCK_REALTIME (Suc (Suc (clock_reads w))) = Some tv3"
  shows "tester_exchange E host nb pk w =
     (Continue,
      w\<lparr>trace := trace w @ [PrintStart, ClockGettime CLOCK_MONOTONIC, MakeRequest host req,
                  ClockGettime CLOCK_MONOTONIC, ClockGettime CLOCK_REALTIME,
                  LogCraggyTimestamp
                    (ts + ucast (((ucast (timespec_us tv2) :: u32) - ucast (timespec_us tv1)) div 2)),
                  LogGpsTimestamp, LogTimeDelta rad, PrintStop],
        clock_reads := Suc (Suc (Suc (clock_reads w))), requests := Suc (requests w)\<rparr>)"
  using assms
  by (simp add: tester_exchange_def tester_report_def MonotonicUs_def RealtimeUs_def
      TimeUs_Some Let_def emit_def)

lemma uint_correction32:
  fixes e s :: u64
  shows "uint (ucast (((ucast e :: u32) - ucast s) div 2) :: u64)
           = ((uint e mod 2 ^ 32 - uint s mod 2 ^ 32) mod 2 ^ 32) div 2"
proof -
  have u: "uint (ucast x :: u32) = uint x mod 2 ^ 32" for x :: u64
    by (simp add: unsigned_ucast_eq take_bit_eq_mod)
  have "uint (ucast (((ucast e :: u32) - ucast s) div 2) :: u64)
          = uint (((ucast e :: u32) - ucast s) div 2)"
    by (simp add: uint_up_ucast is_up)
  also have "\<dots> = uint ((ucast e :: u32) - ucast s) div 2"
    by (simp add: uint_div_distrib)
  also have "\<dots> = ((uint e mod 2 ^ 32 - uint s mod 2 ^ 32) mod 2 ^ 32) div 2"
    by (simp only: uint_word_ariths u) simp
  finally show ?thesis .
qed

text \<open>
  Claim C10. In the roughtime-tester, the send and receive readings are kept in uint32
  variables: the correction added to the server's timestamp is half of the difference,
  on 32 bits, of the two monotonic readings reduced modulo 2^32, and not half of the
  difference of the 64-bit readings.
\<close>

theorem tester_correction_modulo_2_32:
  assumes "craggy_createRequest E nonceBytes = Some req"
      and "clock_gettime E CLOCK_MONOTONIC (clock_reads w) = Some tv1"
      and "craggy_makeRequest E (requests w) host req = Inr resp"
      and "craggy_processResponse E nonceBytes rootPublicKey resp = Inr (ts, rad)"
      and "clock_gettime E CLOCK_MONOTONIC (Suc (clock_reads w)) = Some tv2"
      and "clock_gettime E CLOCK_REALTIME (Suc (Suc (clock_reads w))) = Some tv3"
      and "correction = ucast (((ucast (timespec_us tv2) :: u32) - ucast (timespec_us tv1)) div 2)"
  shows "new_events w (snd (tester_exchange E host nonceBytes rootPublicKey w)) =
           [PrintStart, ClockGettime CLOCK_MONOTONIC, MakeRequest host req,
            ClockGettime CLOCK_MONOTONIC, ClockGettime CLOCK_REALTIME,
            LogCraggyTimestamp (ts + correction), LogGpsTimestamp, LogTimeDelta rad, PrintStop]
       \<and> uint correction
           = ((uint (timespec_us tv2) mod 2 ^ 32 - uint (timespec_us tv1) mod 2 ^ 32) mod 2 ^ 32) div 2"
  using tester_exchange_success [OF assms(1-6)] assms(7)
  by (simp add: new_events_def uint_correction32)

theorem tester_correction_modulo_2_32_witness:
  "new_events init_world
     (snd (tester_exchange
        ((sample_env 0 1625585148000000)
           \<lparr>clock_gettime := (\<lambda>c n. if n = 0 then Some \<lparr>tv_sec = 0, tv_nsec = 0\<rparr>
                                    else Some \<lparr>tv_sec = 4294, tv_nsec = 967306000\<rparr>)\<rparr>)
        ''host:2002'' (replicate 32 1) (replicate 32 2) init_world))
     = [PrintStart, ClockGettime CLOCK_MONOTONIC, MakeRequest ''host:2002'' (replicate 32 1),
        ClockGettime CLOCK_MONOTONIC, ClockGettime CLOCK_REALTIME,
        LogCraggyTimestamp (1625585148000000 + 5), LogGpsTimestamp, LogTimeDelta 10000, PrintStop]
   \<and> ((4294967306 :: u64) - 0) div 2 = 2147483653"
proof -
  let ?E = "(sample_env 0 1625585148000000)
           \<lparr>clock_gettime := (\<lambda>c n. if n = 0 then Some \<lparr>tv_sec = 0, tv_nsec = 0\<rparr>
                                    else Some \<lparr>tv_sec = 4294, tv_nsec = 967306000\<rparr>)\<rparr>"
  have c: "timespec_us \<lparr>tv_sec = 0, tv_nsec = 0\<rparr> = 0"
       "timespec_us \<lparr>tv_sec = 4294, tv_nsec = 967306000\<rparr> = 4294967306"
    by (simp_all add: timespec_us_def Let_def)
  have k: "(ucast (((ucast (4294967306 :: u64) :: u32) - ucast (0 :: u64)) div 2) :: u64) = 5"
    by simp
  have 1: "craggy_createRequest ?E (replicate 32 1) = Some (replicate 32 1)"
    by (simp add: sample_env_def)
  have 2: "clock_gettime ?E CLOCK_MONOTONIC (clock_reads init_world) = Some \<lparr>tv_sec = 0, tv_nsec = 0\<rparr>"
    by (simp add: sample_env_def init_world_def)
  have 3: "craggy_makeRequest ?E (requests init_world) ''host:2002'' (replicate 32 1) = Inr (replicate 32 1)"
    by (simp add: sample_env_def)
  have 4: "craggy_processResponse ?E (replicate 32 1) (replicate 32 2) (replicate 32 1) = Inr (1625585148000000, 10000)"
    by (simp add: sample_env_def)
  have 5: "clock_gettime ?E CLOCK_MONOTONIC (Suc (clock_reads init_world)) = Some \<lparr>tv_sec = 4294, tv_nsec = 967306000\<rparr>"
    by (simp add: sample_env_def init_world_def)
  have 6: "clock_gettime ?E CLOCK_REALTIME (Suc (Suc (clock_reads init_world))) = Some \<lparr>tv_sec = 4294, tv_nsec = 967306000\<rparr>"
    by (simp add: sample_env_def init_world_def)
  show ?thesis
    using tester_correction_modulo_2_32 [OF 1 2 3 4 5 6 refl]
    by (simp add: c k)
qed

lemma verify_Inr:
  "verify P resp nb pk = Inr v \<Longrightarrow>
     \<exists>r. parse_response P resp = Some r \<and> certificate_signature_ok P pk r
          \<and> response_signature_ok P r \<and> merkle_path_ok P nb r \<and> v = (MIDP r, RADI r)"
  by (auto simp add: verify_def split: option.splits if_splits)

lemma verify_Inl:
  "verify P resp nb pk = Inl e \<Longrightarrow>
     (\<forall>r. parse_response P resp = Some r \<longrightarrow>
        \<not> (certificate_signature_ok P pk r \<and> response_signature_ok P r \<and> merkle_path_ok P nb r))"
  by (auto simp add: verify_def split: option.splits if_splits)

lemma report_reports:
  "\<exists>es. trace (snd (report E s ts rad w)) = trace w @ es"
  using report_trace [of E s ts rad w] by (cases "report E s ts rad w") auto

lemma exchange_events:
  "\<exists>es. trace (snd (exchange E host nb pk w)) = trace w @ es"
  using exchange_trace [of E host nb pk w] by (cases "exchange E host nb pk w") auto

lemma exchange_reports_only_after_validation:
  assumes "ev \<in> set (new_events w (snd (exchange E host nb pk w)))" and "reports_time ev"
  shows "\<exists>req resp v. craggy_createRequest E nb = Some req
           \<and> craggy_makeRequest E (requests w) host req = Inr resp
           \<and> craggy_processResponse E nb pk resp = Inr v"
proof (cases "craggy_createRequest E nb")
  case None
  with assms show ?thesis by (simp add: exchange_def new_events_def)
next
  case (Some req)
  show ?thesis
  proof (cases "clock_gettime E CLOCK_MONOTONIC (clock_reads w)")
    case None
    with Some assms show ?thesis
      by (auto simp add: exchange_def new_events_def MonotonicUs_def TimeUs_def Let_def)
  next
    case tv: (Some tv1)
    show ?thesis
    proof (cases "craggy_makeRequest E (requests w) host req")
      case (Inl c)
      with Some tv assms show ?thesis
        by (auto simp add: exchange_def new_events_def MonotonicUs_def TimeUs_def Let_def)
    next
      case (Inr resp)
      show ?thesis
      proof (cases "craggy_processResponse E nb pk resp")
        case (Inl c)
        with Some tv Inr assms show ?thesis
          by (auto simp add: exchange_def new_events_def MonotonicUs_def TimeUs_def Let_def)
      next
        case v: (Inr v)
        with Some Inr show ?thesis by blast
      qed
    qed
  qed
qed

lemma exchange_rejected:
  assumes "craggy_createRequest E nb = Some req"
      and "clock_gettime E CLOCK_MONOTONIC (clock_reads w) = Some tv1"
      and "craggy_makeRequest E (requests w) host req = Inr resp"
      and "craggy_processResponse E nb pk resp = Inl c"
  shows "exchange E host nb pk w =
     (GotoError,
      w\<lparr>trace := trace w @ [PrintStart, ClockGettime CLOCK_MONOTONIC, MakeRequest host req,
                  PrintParseError c],
        clock_reads := Suc (clock_reads w), requests := Suc (requests w)\<rparr>)"
  using assms
  by (simp add: exchange_def MonotonicUs_def TimeUs_Some Let_def emit_def)

text \<open>
  Claim C3. With the validator of the specification as \<open>craggy_processResponse\<close>: the
  validator yields a midpoint and a radius exactly when the response parses and the
  certificate signature, the response signature and the Merkle path all verify; an
  exchange of the non-GNSS client prints a time or an offset only if the response it
  received passed the three checks; and when the validator rejects the response the
  exchange ends in \<open>goto error\<close> with the error message as its last output and no time
  or offset printed.
\<close>

theorem timestamp_only_after_verification:
  assumes "craggy_processResponse E = library_processResponse P code"
  shows "(verify P resp nonceBytes rootPublicKey = Inr v \<longleftrightarrow>
            (\<exists>r. parse_response P resp = Some r \<and> certificate_signature_ok P rootPublicKey r
                 \<and> response_signature_ok P r \<and> merkle_path_ok P nonceBytes r
                 \<and> v = (MIDP r, RADI r)))
       \<and> (\<forall>ev \<in> set (new_events w (snd (exchange E host nonceBytes rootPublicKey w))).
            reports_time ev \<longrightarrow>
              (\<exists>req answer r. craggy_createRequest E nonceBytes = Some req
                 \<and> craggy_makeRequest E (requests w) host req = Inr answer
                 \<and> parse_response P answer = Some r
                 \<and> certificate_signature_ok P rootPublicKey r
                 \<and> response_signature_ok P r \<and> merkle_path_ok P nonceBytes r))
       \<and> (\<forall>req answer e tv.
            craggy_createRequest E nonceBytes = Some req
            \<and> clock_gettime E CLOCK_MONOTONIC (clock_reads w) = Some tv
            \<and> craggy_makeRequest E (requests w) host req = Inr answer
            \<and> verify P answer nonceBytes rootPublicKey = Inl e
            \<longrightarrow> fst (exchange E host nonceBytes rootPublicKey w) = GotoError
                \<and> last (trace (snd (exchange E host nonceBytes rootPublicKey w)))
                    = PrintParseError (code e)
                \<and> (\<forall>ev \<in> set (new_events w (snd (exchange E host nonceBytes rootPublicKey w))).
                      \<not> reports_time ev))"
proof (intro conjI ballI impI allI)
  show "verify P resp nonceBytes rootPublicKey = Inr v \<longleftrightarrow>
            (\<exists>r. parse_response P resp = Some r \<and> certificate_signature_ok P rootPublicKey r
                 \<and> response_signature_ok P r \<and> merkle_path_ok P nonceBytes r
                 \<and> v = (MIDP r, RADI r))"
    by (auto simp add: verify_def split: option.splits if_splits)
next
  fix ev
  assume "ev \<in> set (new_events w (snd (exchange E host nonceBytes rootPublicKey w)))"
     and "reports_time ev"
  then obtain req answer v where r: "craggy_createRequest E nonceBytes = Some req"
      "craggy_makeRequest E (requests w) host req = Inr answer"
      "craggy_processResponse E nonceBytes rootPublicKey answer = Inr v"
    using exchange_reports_only_after_validation by blast
  from r(3) assms have "verify P answer nonceBytes rootPublicKey = Inr v"
    by (simp add: library_processResponse_def split: sum.splits)
  from verify_Inr [OF this] r(1,2)
  show "\<exists>req answer r. craggy_createRequest E nonceBytes = Some req
                 \<and> craggy_makeRequest E (requests w) host req = Inr answer
                 \<and> parse_response P answer = Some r
                 \<and> certificate_signature_ok P rootPublicKey r
                 \<and> response_signature_ok P r \<and> merkle_path_ok P nonceBytes r"
    by blast
next
  fix req answer e tv
  assume h: "craggy_createRequest E nonceBytes = Some req
            \<and> clock_gettime E CLOCK_MONOTONIC (clock_reads w) = Some tv
            \<and> craggy_makeRequest E (requests w) host req = Inr answer
            \<and> verify P answer nonceBytes rootPublicKey = Inl e"
  then have "craggy_processResponse E nonceBytes rootPublicKey answer = Inl (code e)"
    using assms by (simp add: library_processResponse_def)
  with h have ex: "exchange E host nonceBytes rootPublicKey w =
     (GotoError,
      w\<lparr>trace := trace w @ [PrintStart, ClockGettime CLOCK_MONOTONIC, MakeRequest host req,
                  PrintParseError (code e)],
        clock_reads := Suc (clock_reads w), requests := Suc (requests w)\<rparr>)"
    by (intro exchange_rejected) simp_all
  show "fst (exchange E host nonceBytes rootPublicKey w) = GotoError" using ex by simp
  show "last (trace (snd (exchange E host nonceBytes rootPublicKey w))) = PrintParseError (code e)"
    using ex by simp
  fix ev
  assume "ev \<in> set (new_events w (snd (exchange E host nonceBytes rootPublicKey w)))"
  then show "\<not> reports_time ev" using ex by (auto simp add: new_events_def)
qed

lemma sample_parse: "parse_response sample_primitives [0] = Some sample_response"
  by (simp add: parse_response_def sample_primitives_def sample_response_def chunks32.simps)

lemma sample_verify_ok:
  "verify sample_primitives [0] [6] [5] = Inr (1625585148000000, 10000)"
  by (simp add: verify_def sample_parse certificate_signature_ok_def response_signature_ok_def
      merkle_path_ok_def leaf_hash_def)
     (simp add: sample_primitives_def sample_response_def)

lemma sample_verify_other_nonce:
  "verify sample_primitives [0] [7] [5] = Inl MerklePathMismatch"
  by (simp add: verify_def sample_parse certificate_signature_ok_def response_signature_ok_def
      merkle_path_ok_def leaf_hash_def)
     (simp add: sample_primitives_def sample_response_def)

theorem timestamp_only_after_verification_witness:
  "PrintCurrentTime 1625585148500000 10000
     \<in> set (new_events init_world (snd (exchange validating_env ''host:2002'' [6] [5] init_world)))
   \<and> (\<exists>r. parse_response sample_primitives [0] = Some r
          \<and> certificate_signature_ok sample_primitives [5] r
          \<and> response_signature_ok sample_primitives r \<and> merkle_path_ok sample_primitives [6] r)
   \<and> verify sample_primitives [0] [7] [5] = Inl MerklePathMismatch
   \<and> fst (exchange validating_env ''host:2002'' [7] [5] init_world) = GotoError
   \<and> last (trace (snd (exchange validating_env ''host:2002'' [7] [5] init_world)))
       = PrintParseError (CraggyResultOther 1)"
proof -
  have p: "craggy_processResponse validating_env
             = library_processResponse sample_primitives (\<lambda>e. CraggyResultOther 1)"
    by (simp add: validating_env_def)
  have c: "timespec_us \<lparr>tv_sec = 1625585148, tv_nsec = 0\<rparr> = 1625585148000000"
       "timespec_us \<lparr>tv_sec = 1625585149, tv_nsec = 0\<rparr> = 1625585149000000"
       "timespec_us \<lparr>tv_sec = 1625585150, tv_nsec = 0\<rparr> = 1625585150000000"
    by (simp_all add: timespec_us_def Let_def)
  have ok: "craggy_processResponse validating_env [6] [5] [0] = Inr (1625585148000000, 10000)"
    by (simp add: p library_processResponse_def sample_verify_ok)
  have ev: "PrintCurrentTime 1625585148500000 10000
     \<in> set (new_events init_world (snd (exchange validating_env ''host:2002'' [6] [5] init_world)))"
    by (subst exchange_success [where req = "[6]" and resp = "[0]"
          and ts = 1625585148000000 and rad = 10000
          and ?tv1.0 = "\<lparr>tv_sec = 1625585148, tv_nsec = 0\<rparr>"
          and ?tv2.0 = "\<lparr>tv_sec = 1625585149, tv_nsec = 0\<rparr>"
          and ?tv3.0 = "\<lparr>tv_sec = 1625585150, tv_nsec = 0\<rparr>"])
       (simp_all add: ok, simp_all add: validating_env_def sample_env_def init_world_def c
          new_events_def Let_def)
  note T = timestamp_only_after_verification [OF p, of "[0]" "[7]" "[5]" "(0, 0)" init_world "''host:2002''"]
  note U = timestamp_only_after_verification [OF p, of "[0]" "[6]" "[5]" "(0, 0)" init_world "''host:2002''"]
  have mk: "craggy_makeRequest validating_env n h q = Inr a \<Longrightarrow> a = [0]" for n h q a
    by (simp add: validating_env_def)
  have "reports_time (PrintCurrentTime 1625585148500000 10000)" by simp
  from U [THEN conjunct2, THEN conjunct1, rule_format, OF ev this]
  have checks: "\<exists>r. parse_response sample_primitives [0] = Some r
          \<and> certificate_signature_ok sample_primitives [5] r
          \<and> response_signature_ok sample_primitives r \<and> merkle_path_ok sample_primitives [6] r"
    using mk by blast
  have h: "craggy_createRequest validating_env [7] = Some [7]
            \<and> clock_gettime validating_env CLOCK_MONOTONIC (clock_reads init_world)
                = Some \<lparr>tv_sec = 1625585148, tv_nsec = 0\<rparr>
            \<and> craggy_makeRequest validating_env (requests init_world) ''host:2002'' [7] = Inr [0]
            \<and> verify sample_primitives [0] [7] [5] = Inl MerklePathMismatch"
    by (simp add: validating_env_def sample_env_def init_world_def sample_verify_other_nonce)
  from T h have "fst (exchange validating_env ''host:2002'' [7] [5] init_world) = GotoError
     \<and> last (trace (snd (exchange validating_env ''host:2002'' [7] [5] init_world)))
       = PrintParseError (CraggyResultOther 1)"
    by blast
  with ev checks sample_verify_other_nonce show ?thesis by simp
qed

section \<open>Properties of the option loop\<close>

lemma handle_option_cases:
  "handle_option v E (c, a) st w =
     (case c of
        Opt_0 \<Rightarrow> (Continue, st, emit PrintOption w)
      | Opt_unknown \<Rightarrow> (Continue, st, w)
      | Opt_other \<Rightarrow> (Aborted, st, w)
      | _ \<Rightarrow> (case a of
               None \<Rightarrow> (if c = Opt_p \<and> v = VCli then Aborted else UndefinedBehaviour, st, w)
             | Some s \<Rightarrow>
                (case c of
                   Opt_h \<Rightarrow> case_h s st w
                 | Opt_n \<Rightarrow> case_n s st w
                 | Opt_k \<Rightarrow> case_k s st w
                 | Opt_i \<Rightarrow> (Continue, st\<lparr>intervals := word_of_int (atoi E s)\<rparr>,
                               emit (PrintPollEvery (word_of_int (atoi E s))) w)
                 | Opt_r \<Rightarrow> (Continue, st\<lparr>repeats := word_of_int (atoi E s)\<rparr>,
                               emit (PrintPollTimes (word_of_int (atoi E s))) w)
                 | Opt_p \<Rightarrow> case_p v s st w
                 | _ \<Rightarrow> (UndefinedBehaviour, st, w))))"
  by (cases c; cases a) (simp_all add: handle_option_def Let_def)

lemma case_h_result:
  "case_h s st w =
     (Continue,
      st\<lparr>heap := heap st @ [\<lparr>cap = length s + 1, content = s\<rparr>], hostname := Some (length (heap st))\<rparr>,
      w)"
  by (simp add: case_h_def malloc_def strcpy_def Let_def)

lemma case_k_result:
  "case_k s st w =
     (Continue,
      st\<lparr>heap := heap st @ [\<lparr>cap = length s + 1, content = s\<rparr>], publicKey := Some (length (heap st))\<rparr>,
      w)"
  by (simp add: case_k_def malloc_def strcpy_def Let_def)

lemma case_n_None: "hostname st = None \<Longrightarrow> fst (case_n s st w) = UndefinedBehaviour"
  by (simp add: case_n_def malloc_def strcpy_def Let_def)

lemma case_n_Some:
  assumes "hostname st = Some p" and "p < length (heap st)"
  shows "case_n s st w =
          (if length s + 1 \<le> cap (heap st ! p)
           then (Continue,
                st\<lparr>heap := (heap st @ [\<lparr>cap = length s + 1, content = []\<rparr>])
                              [p := (heap st ! p)\<lparr>content := s\<rparr>],
                   nonce := Some p\<rparr>, w)
           else (UndefinedBehaviour,
                st\<lparr>heap := heap st @ [\<lparr>cap = length s + 1, content = []\<rparr>],
                   nonce := Some (length (heap st))\<rparr>, w))"
  using assms by (simp add: case_n_def malloc_def strcpy_def Let_def nth_append)

lemma case_p_Continue:
  assumes "case_p v s st w = (Continue, st', w')"
  shows "w' = w \<and> hostname st' = hostname st \<and> nonce st' = nonce st \<and> publicKey st' = publicKey st
         \<and> repeats st' = repeats st \<and> intervals st' = intervals st
         \<and> length (heap st) \<le> length (heap st')
         \<and> (\<forall>p < length (heap st). (has_port_name v \<longrightarrow> p \<noteq> port_name)
               \<longrightarrow> heap st' ! p = heap st ! p)"
proof (cases v)
  case VCli
  with assms show ?thesis by (simp add: case_p_def)
next
  case VTester
  with assms show ?thesis
    by (auto simp add: case_p_def strcpy_def has_port_name_def split: if_splits)
next
  case VTesterSim
  with assms show ?thesis
    by (auto simp add: case_p_def strcpy_def has_port_name_def split: if_splits)
next
  case VRoughtest
  with assms show ?thesis
    by (auto simp add: case_p_def malloc_def strcpy_def Let_def nth_append split: if_splits)
qed

lemma case_p_world: "case_p v s st w = (f, st', w') \<Longrightarrow> w' = w"
  by (cases v)
     (auto simp add: case_p_def malloc_def strcpy_def Let_def split: option.splits if_splits)

lemma case_n_world: "case_n s st w = (f, st', w') \<Longrightarrow> w' = w"
  by (auto simp add: case_n_def malloc_def strcpy_def Let_def split: option.splits if_splits)

lemma handle_option_world:
  assumes "handle_option v E (c, a) st w = (f, st', w')"
  shows "clock_reads w' = clock_reads w \<and> requests w' = requests w
         \<and> (\<exists>es. trace w' = trace w @ es \<and> (\<forall>e \<in> set es. \<not> is_exchange_event e))"
proof (cases a)
  case None
  with assms show ?thesis by (cases c) (auto simp add: handle_option_cases)
next
  case (Some s)
  show ?thesis
  proof (cases c)
    case Opt_n
    with assms Some have "w' = w" using case_n_world by (simp add: handle_option_cases)
    then show ?thesis by simp
  next
    case Opt_p
    with assms Some have "w' = w" using case_p_world by (simp add: handle_option_cases)
    then show ?thesis by simp
  qed (use assms Some in \<open>auto simp add: handle_option_cases case_h_result case_k_result\<close>)+
qed

lemma step_h:
  assumes "wf_state v st"
  shows "wf_state v (st\<lparr>heap := heap st @ [\<lparr>cap = length s + 1, content = s\<rparr>], hostname := Some (length (heap st))\<rparr>)"
  using assms
  by (auto simp add: wf_state_def valid_ptr_def port_name_def split: option.splits)

lemma step_k:
  assumes "wf_state v st"
  shows "wf_state v (st\<lparr>heap := heap st @ [\<lparr>cap = length s + 1, content = s\<rparr>], publicKey := Some (length (heap st))\<rparr>)"
  using assms
  by (auto simp add: wf_state_def valid_ptr_def port_name_def split: option.splits)

lemma step_n:
  assumes "wf_state v st" and "hostname st = Some p"
  shows "wf_state v (st\<lparr>heap := (heap st @ [b])[p := b'], nonce := Some p\<rparr>)"
  using assms
  by (auto simp add: wf_state_def valid_ptr_def split: option.splits)

lemma strs_h:
  assumes "wf_state v st"
    and st'_def: "st' = st\<lparr>heap := heap st @ [\<lparr>cap = length s + 1, content = s\<rparr>], hostname := Some (length (heap st))\<rparr>"
  shows "hostname_str st' = Some s" "nonce_str st' = nonce_str st" "publicKey_str st' = publicKey_str st"
  using assms(1) unfolding st'_def
  by (auto simp add: wf_state_def valid_ptr_def hostname_str_def nonce_str_def publicKey_str_def
      deref_def nth_append split: option.splits)

lemma strs_k:
  assumes "wf_state v st"
    and st'_def: "st' = st\<lparr>heap := heap st @ [\<lparr>cap = length s + 1, content = s\<rparr>], publicKey := Some (length (heap st))\<rparr>"
  shows "publicKey_str st' = Some s" "nonce_str st' = nonce_str st" "hostname_str st' = hostname_str st"
  using assms(1) unfolding st'_def
  by (auto simp add: wf_state_def valid_ptr_def hostname_str_def nonce_str_def publicKey_str_def
      deref_def nth_append split: option.splits)

lemma strs_n:
  assumes "wf_state v st" and "hostname st = Some p"
    and st'_def: "st' = st\<lparr>heap := (heap st @ [b])[p := (heap st ! p)\<lparr>content := s\<rparr>], nonce := Some p\<rparr>"
  shows "hostname_str st' = Some s" "nonce_str st' = Some s" "publicKey_str st' = publicKey_str st"
proof -
  from assms(1,2) have p: "p < length (heap st)" by (simp add: wf_state_def valid_ptr_def)
  show "hostname_str st' = Some s" "nonce_str st' = Some s"
    using p assms(2) unfolding st'_def by (simp_all add: hostname_str_def nonce_str_def deref_def)
  show "publicKey_str st' = publicKey_str st"
  proof (cases "publicKey st")
    case None
    then show ?thesis unfolding st'_def by (simp add: publicKey_str_def)
  next
    case (Some k)
    with assms(1,2) have "k \<noteq> p" "k < length (heap st)"
      by (auto simp add: wf_state_def valid_ptr_def)
    with Some show ?thesis unfolding st'_def
      by (simp add: publicKey_str_def deref_def nth_append)
  qed
qed

lemma deref_upd [simp]:
  "deref (st\<lparr>intervals := x\<rparr>) = deref st" "deref (st\<lparr>repeats := y\<rparr>) = deref st"
  by (rule ext, simp add: deref_def)+

lemma valid_ptr_upd [simp]:
  "valid_ptr v (st\<lparr>intervals := x\<rparr>) q = valid_ptr v st q"
  "valid_ptr v (st\<lparr>repeats := y\<rparr>) q = valid_ptr v st q"
  by (cases q; simp add: valid_ptr_def)+

lemma handle_option_step:
  assumes wf: "wf_state v st" and h: "handle_option v E (c, a) st w = (Continue, st', w')"
  shows "step_spec v c a st st'"
proof (cases c)
  case Opt_0
  with h have "st' = st" by (simp add: handle_option_cases)
  with wf Opt_0 show ?thesis by (simp add: step_spec_def)
next
  case Opt_unknown
  with h have "st' = st" by (simp add: handle_option_cases)
  with wf Opt_unknown show ?thesis by (simp add: step_spec_def)
next
  case Opt_other
  with h show ?thesis by (simp add: handle_option_cases)
next
  case Opt_h
  with h obtain s where a: "a = Some s" by (cases a) (simp_all add: handle_option_cases)
  with h Opt_h have st': "st' = st\<lparr>heap := heap st @ [\<lparr>cap = length s + 1, content = s\<rparr>],
                             hostname := Some (length (heap st))\<rparr>"
    by (simp add: handle_option_cases case_h_result)
  from step_h [OF wf, of s] strs_h [OF wf st'] st' a Opt_h show ?thesis
    by (simp add: step_spec_def)
next
  case Opt_k
  with h obtain s where a: "a = Some s" by (cases a) (simp_all add: handle_option_cases)
  with h Opt_k have st': "st' = st\<lparr>heap := heap st @ [\<lparr>cap = length s + 1, content = s\<rparr>],
                             publicKey := Some (length (heap st))\<rparr>"
    by (simp add: handle_option_cases case_k_result)
  from step_k [OF wf, of s] strs_k [OF wf st'] st' a Opt_k show ?thesis
    by (simp add: step_spec_def)
next
  case Opt_n
  with h obtain s where a: "a = Some s" by (cases a) (simp_all add: handle_option_cases)
  with h Opt_n have n: "case_n s st w = (Continue, st', w')" by (simp add: handle_option_cases)
  then obtain p where hp: "hostname st = Some p"
    using case_n_None [of st s w] by (cases "hostname st") auto
  with wf have pl: "p < length (heap st)" by (simp add: wf_state_def valid_ptr_def)
  from n case_n_Some [OF hp pl, of s w]
  have st': "st' = st\<lparr>heap := (heap st @ [\<lparr>cap = length s + 1, content = []\<rparr>])
                              [p := (heap st ! p)\<lparr>content := s\<rparr>], nonce := Some p\<rparr>"
    by (simp split: if_splits)
  from step_n [OF wf hp] strs_n [OF wf hp st'] st' a Opt_n hp show ?thesis
    by (simp add: step_spec_def)
next
  case Opt_i
  with h obtain s where a: "a = Some s" by (cases a) (simp_all add: handle_option_cases)
  with h Opt_i have "st' = st\<lparr>intervals := word_of_int (atoi E s)\<rparr>"
    by (simp add: handle_option_cases)
  with wf Opt_i show ?thesis
    by (simp add: step_spec_def wf_state_def hostname_str_def nonce_str_def publicKey_str_def)
next
  case Opt_r
  with h obtain s where a: "a = Some s" by (cases a) (simp_all add: handle_option_cases)
  with h Opt_r have "st' = st\<lparr>repeats := word_of_int (atoi E s)\<rparr>"
    by (simp add: handle_option_cases)
  with wf Opt_r show ?thesis
    by (simp add: step_spec_def wf_state_def hostname_str_def nonce_str_def publicKey_str_def)
next
  case Opt_p
  with h obtain s where a: "a = Some s" and p: "case_p v s st w = (Continue, st', w')"
    by (cases a) (auto simp add: handle_option_cases split: if_splits)
  note k = case_p_Continue [OF p]
  have same: "q < length (heap st) \<Longrightarrow> (has_port_name v \<longrightarrow> q \<noteq> port_name)
                \<Longrightarrow> heap st' ! q = heap st ! q" for q
    using k by blast
  have len: "length (heap st) \<le> length (heap st')" using k by blast
  have ptrs: "hostname st' = hostname st" "nonce st' = nonce st" "publicKey st' = publicKey st"
    "repeats st' = repeats st"
    using k by auto
  have vp: "valid_ptr v st q \<Longrightarrow> valid_ptr v st' q" for q
    using len by (auto simp add: valid_ptr_def split: option.splits)
  have ds: "valid_ptr v st q \<Longrightarrow> map_option (deref st') q = map_option (deref st) q" for q
    using same by (cases q) (auto simp add: valid_ptr_def deref_def)
  from wf have "wf_state v st'"
    using vp len by (auto simp add: wf_state_def ptrs)
  moreover from wf have "hostname_str st' = hostname_str st" "nonce_str st' = nonce_str st"
    "publicKey_str st' = publicKey_str st"
    using ds by (simp_all add: wf_state_def hostname_str_def nonce_str_def publicKey_str_def ptrs)
  ultimately show ?thesis using Opt_p ptrs by (simp add: step_spec_def)
qed

lemma wf_init: "wf_state v (init_state v)"
  by (cases v) (simp_all add: wf_state_def valid_ptr_def init_state_def has_port_name_def port_name_def)

lemma init_strs:
  "hostname_str (init_state v) = None" "nonce_str (init_state v) = None"
  "publicKey_str (init_state v) = None"
  by (simp_all add: hostname_str_def nonce_str_def publicKey_str_def init_state_def)

lemma parse_options_Cons_Continue:
  assumes "parse_options v E ((c, a) # args) st w = (Continue, st', w')"
  obtains st1 w1 where "handle_option v E (c, a) st w = (Continue, st1, w1)"
    and "parse_options v E args st1 w1 = (Continue, st', w')"
proof -
  obtain f1 st1 w1 where h: "handle_option v E (c, a) st w = (f1, st1, w1)"
    by (cases "handle_option v E (c, a) st w")
  with assms have "f1 = Continue" by (cases f1) simp_all
  with h assms that show ?thesis by simp
qed

lemma parse_options_strs:
  assumes "wf_state v st" and "parse_options v E args st w = (Continue, st', w')"
  shows "wf_state v st'
       \<and> hostname_str st' = supplied {Opt_h, Opt_n} args (hostname_str st)
       \<and> nonce_str st' = supplied {Opt_n} args (nonce_str st)
       \<and> publicKey_str st' = supplied {Opt_k} args (publicKey_str st)"
  using assms
proof (induction args arbitrary: st w)
  case Nil
  then show ?case by simp
next
  case (Cons opt args)
  obtain c a where opt: "opt = (c, a)" by (cases opt)
  obtain st1 w1 where
    h: "handle_option v E (c, a) st w = (Continue, st1, w1)"
    and r: "parse_options v E args st1 w1 = (Continue, st', w')"
    using parse_options_Cons_Continue [OF Cons.prems(2) [unfolded opt]] by blast
  from handle_option_step [OF Cons.prems(1) h] have s: "step_spec v c a st st1" .
  then have wf1: "wf_state v st1" by (simp add: step_spec_def)
  from Cons.IH [OF wf1 r] s opt show ?case by (simp add: step_spec_def)
qed

lemma parse_options_step_induct:
  assumes wf: "wf_state v st" and p: "parse_options v E args st w = (Continue, st', w')"
      and base: "P st"
      and step: "\<And>c a s s'. (c, a) \<in> set args \<Longrightarrow> step_spec v c a s s' \<Longrightarrow> P s \<Longrightarrow> P s'"
  shows "P st'"
  using wf p base step
proof (induction args arbitrary: st w)
  case Nil
  then show ?case by simp
next
  case (Cons opt args)
  obtain c a where opt: "opt = (c, a)" by (cases opt)
  obtain st1 w1 where
    h: "handle_option v E (c, a) st w = (Continue, st1, w1)"
    and r: "parse_options v E args st1 w1 = (Continue, st', w')"
    using parse_options_Cons_Continue [OF Cons.prems(2) [unfolded opt]] by blast
  from handle_option_step [OF Cons.prems(1) h] have s: "step_spec v c a st st1" .
  then have wf1: "wf_state v st1" by (simp add: step_spec_def)
  have P1: "P st1" using Cons.prems(4) [of c a st st1] s Cons.prems(3) opt by simp
  show ?case
    by (rule Cons.IH [OF wf1 r P1]) (use Cons.prems(4) in auto)
qed


lemma parse_options_no_hn:
  assumes "wf_state v st" and "parse_options v E args st w = (Continue, st', w')"
      and "Opt_h \<notin> fst ` set args" and "Opt_n \<notin> fst ` set args"
  shows "hostname st' = hostname st \<and> nonce st' = nonce st"
proof (rule parse_options_step_induct [OF assms(1,2),
      where P = "\<lambda>s. hostname s = hostname st \<and> nonce s = nonce st"])
  show "hostname st = hostname st \<and> nonce st = nonce st" by simp
next
  fix c a s s'
  assume m: "(c, a) \<in> set args" and sp: "step_spec v c a s s'"
    and "hostname s = hostname st \<and> nonce s = nonce st"
  moreover from m assms(3,4) have "c \<noteq> Opt_h" "c \<noteq> Opt_n" by force+
  ultimately show "hostname s' = hostname st \<and> nonce s' = nonce st" by (simp add: step_spec_def)
qed


lemma parse_options_no_r:
  assumes "wf_state v st" and "parse_options v E args st w = (Continue, st', w')"
      and "Opt_r \<notin> fst ` set args"
  shows "repeats st' = repeats st"
proof (rule parse_options_step_induct [OF assms(1,2), where P = "\<lambda>s. repeats s = repeats st"])
  show "repeats st = repeats st" by simp
next
  fix c a s s'
  assume m: "(c, a) \<in> set args" and sp: "step_spec v c a s s'" and "repeats s = repeats st"
  moreover from m assms(3) have "c \<noteq> Opt_r" by force
  ultimately show "repeats s' = repeats st" by (simp add: step_spec_def)
qed

lemma step_spec_nonce_host:
  assumes sp: "step_spec v c a s s'" and inv: "nonce s \<noteq> None \<longrightarrow> hostname s \<noteq> None"
  shows "nonce s' \<noteq> None \<longrightarrow> hostname s' \<noteq> None"
proof (cases "c = Opt_h")
  case True
  with sp have "hostname_str s' = a" "a \<noteq> None" by (simp_all add: step_spec_def)
  then show ?thesis by (auto simp add: hostname_str_def)
next
  case False
  show ?thesis
  proof (cases "c = Opt_n")
    case True
    with sp False have "hostname s' = hostname s" "hostname s \<noteq> None"
      by (simp_all add: step_spec_def)
    then show ?thesis by simp
  next
    case n: False
    with sp False have "hostname s' = hostname s" "nonce s' = nonce s"
      by (simp_all add: step_spec_def)
    with inv show ?thesis by simp
  qed
qed

lemma parse_options_nonce_host:
  assumes "wf_state v st" and "parse_options v E args st w = (Continue, st', w')"
      and "nonce st \<noteq> None \<longrightarrow> hostname st \<noteq> None"
  shows "nonce st' \<noteq> None \<longrightarrow> hostname st' \<noteq> None"
  by (rule parse_options_step_induct [OF assms(1,2),
        where P = "\<lambda>s. nonce s \<noteq> None \<longrightarrow> hostname s \<noteq> None"])
     (use assms(3) step_spec_nonce_host in blast)+

lemma parse_options_append:
  "parse_options v E (xs @ ys) st w =
     (case parse_options v E xs st w of
        (Continue, st1, w1) \<Rightarrow> parse_options v E ys st1 w1
      | r \<Rightarrow> r)"
proof (induction xs arbitrary: st w)
  case Nil
  then show ?case by simp
next
  case (Cons x xs)
  obtain f1 st1 w1 where h: "handle_option v E x st w = (f1, st1, w1)"
    by (cases "handle_option v E x st w")
  show ?case using h Cons.IH by (cases f1) simp_all
qed

lemma parse_options_alias:
  assumes wf: "wf_state v st"
      and p: "parse_options v E (pre @ (Opt_n, a) # post) st w = (Continue, st', w')"
      and post: "Opt_h \<notin> fst ` set post" "Opt_n \<notin> fst ` set post"
  shows "nonce st' = hostname st' \<and> hostname st' \<noteq> None \<and> hostname_str st' = a"
proof -
  obtain f0 st0 w0 where p0: "parse_options v E pre st w = (f0, st0, w0)"
    by (cases "parse_options v E pre st w")
  with p have f0: "f0 = Continue" by (cases f0) (simp_all add: parse_options_append)
  with p p0 have p1: "parse_options v E ((Opt_n, a) # post) st0 w0 = (Continue, st', w')"
    by (simp add: parse_options_append)
  from parse_options_strs [OF wf p0 [unfolded f0]] have wf0: "wf_state v st0" by simp
  obtain st1 w1 where
    h: "handle_option v E (Opt_n, a) st0 w0 = (Continue, st1, w1)"
    and r: "parse_options v E post st1 w1 = (Continue, st', w')"
    using parse_options_Cons_Continue [OF p1] by blast
  from handle_option_step [OF wf0 h] have s: "step_spec v Opt_n a st0 st1" .
  then have wf1: "wf_state v st1" and al: "nonce st1 = hostname st1" "hostname st1 \<noteq> None"
    and str: "hostname_str st1 = a"
    by (simp_all add: step_spec_def)
  from parse_options_no_hn [OF wf1 r post]
  have k: "hostname st' = hostname st1" "nonce st' = nonce st1" by simp_all
  have sup: "supplied {Opt_h, Opt_n} post cur = cur" for cur
    using post by (induction post arbitrary: cur) auto
  from parse_options_strs [OF wf1 r] str sup have "hostname_str st' = a" by simp
  with k al show ?thesis by simp
qed

section \<open>Properties of \<open>main\<close>\<close>

lemma parse_options_world:
  "parse_options v E args st w = (f, st', w') \<Longrightarrow>
     clock_reads w' = clock_reads w \<and> requests w' = requests w
     \<and> (\<exists>es. trace w' = trace w @ es \<and> (\<forall>e \<in> set es. \<not> is_exchange_event e))"
proof (induction args arbitrary: st w)
  case Nil
  then show ?case by simp
next
  case (Cons opt args)
  obtain c a where opt: "opt = (c, a)" by (cases opt)
  obtain f1 st1 w1 where h: "handle_option v E (c, a) st w = (f1, st1, w1)"
    by (cases "handle_option v E (c, a) st w")
  note hw = handle_option_world [OF h]
  show ?case
  proof (cases "f1 = Continue")
    case True
    with Cons.prems opt h have "parse_options v E args st1 w1 = (f, st', w')" by simp
    from Cons.IH [OF this] hw show ?thesis by auto
  next
    case False
    with Cons.prems opt h have "(f, st', w') = (f1, st1, w1)" by (cases f1) simp_all
    with hw show ?thesis by auto
  qed
qed

lemma parse_init:
  assumes "parse_options v E args (init_state v) init_world = (Continue, st, w)"
  shows "wf_state v st"
    and "hostname_str st = supplied {Opt_h, Opt_n} args None"
    and "nonce_str st = supplied {Opt_n} args None"
    and "publicKey_str st = supplied {Opt_k} args None"
    and "nonce st \<noteq> None \<longrightarrow> hostname st \<noteq> None"
    and "\<forall>e \<in> set (trace w). \<not> is_exchange_event e"
    and "clock_reads w = 0" and "requests w = 0"
proof -
  from parse_options_strs [OF wf_init assms]
  show "wf_state v st" "hostname_str st = supplied {Opt_h, Opt_n} args None"
    "nonce_str st = supplied {Opt_n} args None" "publicKey_str st = supplied {Opt_k} args None"
    by (simp_all add: init_strs)
  show "nonce st \<noteq> None \<longrightarrow> hostname st \<noteq> None"
    by (rule parse_options_nonce_host [OF wf_init assms]) (simp add: init_state_def)
  from parse_options_world [OF assms]
  show "\<forall>e \<in> set (trace w). \<not> is_exchange_event e" "clock_reads w = 0" "requests w = 0"
    by (auto simp add: init_world_def)
qed


lemma main_unfold:
  "main E args =
     (case parse_options VCli E args (init_state VCli) init_world of
        (Continue, st, w) \<Rightarrow>
          (case after_options E st w of
             Inl (code, w) \<Rightarrow> (Exit code, trace w)
           | Inr r \<Rightarrow> leave 1 r)
      | (f, st, w) \<Rightarrow> leave 1 (f, w))"
  by (simp add: main_def)

lemma main_parsed:
  assumes "parse_options VCli E args (init_state VCli) init_world = (Continue, st, w)"
  shows "main E args =
          (case after_options E st w of
             Inl (code, w) \<Rightarrow> (Exit code, trace w)
           | Inr r \<Rightarrow> leave 1 r)"
  using assms by (simp add: main_unfold)



lemma after_options_bad_key:
  assumes "publicKey st = Some k" and "hostname st = Some h" and "\<not> repeats st < 1"
      and "length (base64_decode E (deref st k)) \<noteq> 32"
  shows "after_options E st w
           = Inr (GotoError, emit (PrintKeyLength (length (base64_decode E (deref st k)))) w)"
  using assms by (simp add: after_options_def Let_def CRAGGY_ROUGH_TIME_PUBLIC_KEY_LENGTH_def)

lemma after_options_good_key:
  assumes "publicKey st = Some k" and "hostname st = Some h" and "\<not> repeats st < 1"
      and "length (base64_decode E (deref st k)) = 32"
  shows "after_options E st w =
           (case choose_nonce E st w of
              Inl r \<Rightarrow> Inr r
            | Inr nonceBytes \<Rightarrow>
                Inr (main_loop E (deref st h) nonceBytes (base64_decode E (deref st k))
                       (if repeats st = 1 then 0 else intervals st) (repeats st) w))"
  using assms by (simp add: after_options_def Let_def CRAGGY_ROUGH_TIME_PUBLIC_KEY_LENGTH_def)


lemma TimeUs_no_request:
  "TimeUs E c w = (r, w') \<Longrightarrow> trace w' = trace w @ [ClockGettime c]"
  by (auto simp add: TimeUs_def Let_def split: option.splits)

lemma report_no_request:
  assumes "report E s ts rad w = (f, w')"
  shows "\<exists>es. trace w' = trace w @ es \<and> (\<forall>h r. MakeRequest h r \<notin> set es)"
proof -
  obtain r1 w1 where t1: "TimeUs E CLOCK_MONOTONIC w = (r1, w1)"
    by (cases "TimeUs E CLOCK_MONOTONIC w")
  note e1 = TimeUs_no_request [OF t1]
  show ?thesis
  proof (cases r1)
    case None
    with assms t1 e1 show ?thesis by (simp add: report_def MonotonicUs_def)
  next
    case (Some end_us)
    obtain r2 w2 where t2: "TimeUs E CLOCK_REALTIME w1 = (r2, w2)"
      by (cases "TimeUs E CLOCK_REALTIME w1")
    note e2 = TimeUs_no_request [OF t2]
    show ?thesis
    proof (cases r2)
      case None
      with assms t1 t2 Some e1 e2 show ?thesis
        by (simp add: report_def MonotonicUs_def RealtimeUs_def)
    next
      case r: (Some real)
      with assms t1 t2 Some e1 e2 show ?thesis
        by (auto simp add: report_def MonotonicUs_def RealtimeUs_def Let_def
            split: option.splits if_splits)
    qed
  qed
qed

lemma exchange_requests_host:
  assumes "exchange E host nb pk w = (f, w')"
  shows "\<exists>es. trace w' = trace w @ es \<and> (\<forall>h r. MakeRequest h r \<in> set es \<longrightarrow> h = host)"
proof (cases "craggy_createRequest E nb")
  case None
  with assms show ?thesis by (simp add: exchange_def)
next
  case (Some req)
  obtain r1 w1 where t1: "TimeUs E CLOCK_MONOTONIC (emit PrintStart w) = (r1, w1)"
    by (cases "TimeUs E CLOCK_MONOTONIC (emit PrintStart w)")
  from TimeUs_no_request [OF t1]
  have e1: "trace w1 = trace w @ [PrintStart, ClockGettime CLOCK_MONOTONIC]" by simp
  show ?thesis
  proof (cases r1)
    case None
    with assms Some t1 e1 show ?thesis by (simp add: exchange_def MonotonicUs_def Let_def)
  next
    case s: (Some start_us)
    let ?w2 = "(emit (MakeRequest host req) w1)\<lparr>requests := Suc (requests w1)\<rparr>"
    have e2: "trace ?w2 = trace w @ [PrintStart, ClockGettime CLOCK_MONOTONIC, MakeRequest host req]"
      using e1 by simp
    show ?thesis
    proof (cases "craggy_makeRequest E (requests w1) host req")
      case (Inl c)
      with assms Some t1 s e2 show ?thesis
        by (auto simp add: exchange_def MonotonicUs_def Let_def)
    next
      case (Inr resp)
      show ?thesis
      proof (cases "craggy_processResponse E nb pk resp")
        case (Inl c)
        with assms Some t1 s e2 Inr show ?thesis
          by (auto simp add: exchange_def MonotonicUs_def Let_def)
      next
        case v: (Inr v)
        obtain ts rad where v': "v = (ts, rad)" by (cases v)
        from assms Some t1 s Inr v v' have "report E start_us ts rad ?w2 = (f, w')"
          by (simp add: exchange_def MonotonicUs_def Let_def)
        from report_no_request [OF this] e2 show ?thesis by auto
      qed
    qed
  qed
qed

lemma main_loop_requests_host:
  "main_loop E host nb pk ivals reps w = (f, w') \<Longrightarrow>
     \<exists>es. trace w' = trace w @ es \<and> (\<forall>h r. MakeRequest h r \<in> set es \<longrightarrow> h = host)"
proof (induction E host nb pk ivals reps w rule: main_loop.induct)
  case (1 E host nb pk ivals reps w)
  show ?case
  proof (cases "0 < reps")
    case False
    with "1.prems" show ?thesis by (subst (asm) main_loop.simps) simp
  next
    case True
    obtain f1 w1 where ex: "exchange E host nb pk w = (f1, w1)"
      by (cases "exchange E host nb pk w")
    from exchange_requests_host [OF ex] obtain es1 where
      es1: "trace w1 = trace w @ es1" "\<forall>h r. MakeRequest h r \<in> set es1 \<longrightarrow> h = host"
      by blast
    show ?thesis
    proof (cases "f1 = Continue")
      case c: True
      from "1.prems" True ex c
      have r: "main_loop E host nb pk ivals (reps - 1) (emit (Sleep ivals) w1) = (f, w')"
        by (subst (asm) main_loop.simps) simp
      from "1.IH" [OF True ex [unfolded c, symmetric] refl r] obtain es2 where
        es2: "trace w' = trace (emit (Sleep ivals) w1) @ es2"
          "\<forall>h r. MakeRequest h r \<in> set es2 \<longrightarrow> h = host"
        by blast
      from es1 es2 have "trace w' = trace w @ (es1 @ Sleep ivals # es2)" by simp
      moreover from es1 es2 have "\<forall>h r. MakeRequest h r \<in> set (es1 @ Sleep ivals # es2) \<longrightarrow> h = host"
        by auto
      ultimately show ?thesis by blast
    next
      case nc: False
      from main_loop_stop [OF True ex nc] "1.prems" have "w' = w1" by simp
      with es1 show ?thesis by blast
    qed
  qed
qed

lemma after_options_Inl:
  "after_options E st w = Inl (code, w') \<Longrightarrow> code = 1 \<and> w' = emit PrintUsage w"
  by (auto simp add: after_options_def Let_def split: option.splits if_splits sum.splits)

lemma choose_nonce_Inl:
  "choose_nonce E st w = Inl (f, w') \<Longrightarrow>
     f = GotoError \<and> (\<exists>e. w' = emit e w \<and> \<not> is_exchange_event e)"
  by (auto simp add: choose_nonce_def Let_def split: option.splits if_splits sum.splits)

lemma after_options_requests_host:
  assumes "after_options E st w = Inr (f, w')" and "hostname_str st = Some a"
  shows "\<exists>es. trace w' = trace w @ es \<and> (\<forall>h r. MakeRequest h r \<in> set es \<longrightarrow> h = a)"
proof -
  from assms(2) obtain h where h: "hostname st = Some h" "deref st h = a"
    by (auto simp add: hostname_str_def)
  from assms(1) obtain k where k: "publicKey st = Some k" and rp: "\<not> repeats st < 1"
    by (auto simp add: after_options_def Let_def split: option.splits if_splits)
  show ?thesis
  proof (cases "length (base64_decode E (deref st k)) = 32")
    case False
    from after_options_bad_key [OF k h(1) rp False] assms(1) show ?thesis by auto
  next
    case True
    note g = after_options_good_key [OF k h(1) rp True, of w]
    show ?thesis
    proof (cases "choose_nonce E st w")
      case (Inl r)
      with g assms(1) have "choose_nonce E st w = Inl (f, w')" by simp
      from choose_nonce_Inl [OF this] show ?thesis by auto
    next
      case (Inr nb)
      with g assms(1) h(2)
      have "main_loop E a nb (base64_decode E (deref st k))
              (if repeats st = 1 then 0 else intervals st) (repeats st) w = (f, w')"
        by simp
      from main_loop_requests_host [OF this] show ?thesis .
    qed
  qed
qed

lemma main_requests_host:
  assumes "parse_options VCli E args (init_state VCli) init_world = (Continue, st, w)"
      and "hostname_str st = Some a" and "MakeRequest h r \<in> set (snd (main E args))"
  shows "h = a"
proof -
  note i = parse_init [OF assms(1)]
  have no: "MakeRequest h r \<notin> set (trace w)" using i(6) by auto
  show ?thesis
  proof (cases "after_options E st w")
    case (Inl cw)
    obtain code w' where "cw = (code, w')" by (cases cw)
    with Inl after_options_Inl [of E st w code w'] main_parsed [OF assms(1)] assms(3) no
    show ?thesis by auto
  next
    case (Inr fw)
    obtain f w' where fw: "fw = (f, w')" by (cases fw)
    from after_options_requests_host [OF Inr [unfolded fw] assms(2)] obtain es where
      es: "trace w' = trace w @ es" "\<forall>h r. MakeRequest h r \<in> set es \<longrightarrow> h = a"
      by blast
    from main_parsed [OF assms(1)] Inr fw have "snd (main E args) = trace w'"
      by (cases f) (simp_all add: leave_def)
    with assms(3) es no show ?thesis by auto
  qed
qed

lemma tester_exchange_requests_host:
  assumes "MakeRequest h r \<in> set (new_events w (snd (tester_exchange E host nb pk w)))"
  shows "h = host"
proof (cases "craggy_createRequest E nb")
  case None
  with assms show ?thesis by (simp add: tester_exchange_def new_events_def)
next
  case (Some req)
  show ?thesis
  proof (cases "clock_gettime E CLOCK_MONOTONIC (clock_reads w)")
    case None
    with Some assms show ?thesis
      by (auto simp add: tester_exchange_def new_events_def MonotonicUs_def TimeUs_def Let_def)
  next
    case tv: (Some tv1)
    show ?thesis
    proof (cases "craggy_makeRequest E (requests w) host req")
      case (Inl c)
      with Some tv assms show ?thesis
        by (auto simp add: tester_exchange_def new_events_def MonotonicUs_def TimeUs_def Let_def)
    next
      case (Inr resp)
      show ?thesis
      proof (cases "craggy_processResponse E nb pk resp")
        case (Inl c)
        with Some tv Inr assms show ?thesis
          by (auto simp add: tester_exchange_def new_events_def MonotonicUs_def TimeUs_def Let_def)
      next
        case v: (Inr v)
        obtain ts rad where v': "v = (ts, rad)" by (cases v)
        with Some tv Inr v assms show ?thesis
          by (auto simp add: tester_exchange_def tester_report_def new_events_def MonotonicUs_def
              RealtimeUs_def TimeUs_def Let_def split: option.splits)
      qed
    qed
  qed
qed

lemma nonce_step:
  assumes "hostname st0 = Some p"
      and "handle_option v E (Opt_n, Some a) st0 w0 = (Continue, st1, w1)"
  shows "nonce st1 = Some p \<and> hostname st1 = Some p \<and> deref st1 p = a"
  using assms
  by (auto simp add: handle_option_cases case_n_def malloc_def strcpy_def Let_def deref_def
      split: if_splits)

text \<open>
  Claim C9. In every variant of the client, the \<open>'n'\<close> case copies the option's argument
  into the block \<open>hostname\<close> points to and makes \<open>nonce\<close> point to that same block. The
  copy is defined exactly when the argument and its terminator fit that block; it is
  undefined when they do not, and when \<open>hostname\<close> is still \<open>NULL\<close>. So when the option
  loop has run to its end and no host or nonce option follows the last nonce option,
  \<open>hostname\<close> and \<open>nonce\<close> are the same pointer, the string there is the argument of that
  nonce option, and every request of the non-GNSS client, and of an exchange of the
  tester, goes to that string as its host.
\<close>

theorem nonce_option_overwrites_hostname:
  assumes "parse_options v E (pre @ (Opt_n, Some a) # post) (init_state v) init_world
             = (Continue, st, w)"
      and "Opt_h \<notin> fst ` set post" and "Opt_n \<notin> fst ` set post"
  shows "(\<forall>st0 w0 st1 w1 p.
            hostname st0 = Some p
            \<and> handle_option v E (Opt_n, Some a) st0 w0 = (Continue, st1, w1)
            \<longrightarrow> nonce st1 = Some p \<and> hostname st1 = Some p \<and> deref st1 p = a)
       \<and> (\<forall>st0 w0 p.
            hostname st0 = Some p \<and> p < length (heap st0)
            \<longrightarrow> (fst (handle_option v E (Opt_n, Some a) st0 w0) = Continue
                   \<longleftrightarrow> length a + 1 \<le> cap (heap st0 ! p))
                \<and> (fst (handle_option v E (Opt_n, Some a) st0 w0) = UndefinedBehaviour
                   \<longleftrightarrow> cap (heap st0 ! p) < length a + 1))
       \<and> (\<forall>st0 w0.
            hostname st0 = None
            \<longrightarrow> fst (handle_option v E (Opt_n, Some a) st0 w0) = UndefinedBehaviour)
       \<and> nonce st = hostname st \<and> hostname_str st = Some a \<and> nonce_str st = Some a
       \<and> (v = VCli \<longrightarrow>
            (\<forall>h r. MakeRequest h r \<in> set (snd (main E (pre @ (Opt_n, Some a) # post)))
                     \<longrightarrow> h = a))
       \<and> (\<forall>nb pk w0 h r.
             MakeRequest h r
               \<in> set (new_events w0 (snd (tester_exchange E (the (hostname_str st)) nb pk w0)))
             \<longrightarrow> h = a)"
proof -
  note al = parse_options_alias [OF wf_init assms]
  then have hs: "hostname_str st = Some a" and eq: "nonce st = hostname st" by simp_all
  from hs eq have ns: "nonce_str st = Some a" by (simp add: hostname_str_def nonce_str_def)
  have step: "\<forall>st0 w0 st1 w1 p.
            hostname st0 = Some p
            \<and> handle_option v E (Opt_n, Some a) st0 w0 = (Continue, st1, w1)
            \<longrightarrow> nonce st1 = Some p \<and> hostname st1 = Some p \<and> deref st1 p = a"
    using nonce_step by blast
  have cli: "v = VCli \<longrightarrow>
            (\<forall>h r. MakeRequest h r \<in> set (snd (main E (pre @ (Opt_n, Some a) # post)))
                     \<longrightarrow> h = a)"
    using main_requests_host [OF _ hs] assms(1) by blast
  have tester: "\<forall>nb pk w0 h r.
             MakeRequest h r
               \<in> set (new_events w0 (snd (tester_exchange E (the (hostname_str st)) nb pk w0)))
             \<longrightarrow> h = a"
    using tester_exchange_requests_host hs by auto
  have fits: "\<forall>st0 w0 p.
            hostname st0 = Some p \<and> p < length (heap st0)
            \<longrightarrow> (fst (handle_option v E (Opt_n, Some a) st0 w0) = Continue
                   \<longleftrightarrow> length a + 1 \<le> cap (heap st0 ! p))
                \<and> (fst (handle_option v E (Opt_n, Some a) st0 w0) = UndefinedBehaviour
                   \<longleftrightarrow> cap (heap st0 ! p) < length a + 1)"
    by (simp add: handle_option_cases case_n_Some not_le)
  have null: "\<forall>st0 w0.
            hostname st0 = None
            \<longrightarrow> fst (handle_option v E (Opt_n, Some a) st0 w0) = UndefinedBehaviour"
    by (simp add: handle_option_cases case_n_None)
  from step fits null eq hs ns cli tester show ?thesis by blast
qed

text \<open>
  The length check of the nonce taken alone, in the non-GNSS client: when the option loop
  has run to its end, the key decodes to 32 bytes and at least one repeat is asked for, a
  nonce string that decodes to exactly 32 bytes gives the nonce of every request of the
  loop, and any other decoded length gives the nonce length message and status 1 with
  nothing of an exchange. The first hypothesis holds only when the nonce argument fits the
  block of \<open>hostname\<close>.
\<close>

lemma nonce_length_check:
  assumes "parse_options VCli E args (init_state VCli) init_world = (Continue, st, w)"
      and "supplied {Opt_n} args None = Some n"
      and "supplied {Opt_k} args None = Some k"
      and "length (base64_decode E k) = 32"
      and "\<not> repeats st < 1"
  shows "(length (base64_decode E n) = 32 \<longrightarrow>
            (\<exists>host. hostname_str st = Some host
               \<and> main E args
                   = leave 1 (main_loop E host (base64_decode E n) (base64_decode E k)
                       (if repeats st = 1 then 0 else intervals st) (repeats st) w)))
       \<and> (length (base64_decode E n) \<noteq> 32 \<longrightarrow>
            main E args = (Exit 1, trace w @ [PrintNonceLength (length (base64_decode E n))])
            \<and> (\<forall>e \<in> set (snd (main E args)). \<not> is_exchange_event e))"
proof -
  note i = parse_init [OF assms(1)]
  from i(3) assms(2) obtain q where q: "nonce st = Some q" "deref st q = n"
    by (auto simp add: nonce_str_def)
  from i(4) assms(3) obtain kp where kp: "publicKey st = Some kp" "deref st kp = k"
    by (auto simp add: publicKey_str_def)
  from i(5) q obtain h where h: "hostname st = Some h" by auto
  note g = after_options_good_key [OF kp(1) h assms(5), unfolded kp(2), OF assms(4), of w]
  have cn: "choose_nonce E st w =
              (if length (base64_decode E n) \<noteq> 32
               then Inl (GotoError, emit (PrintNonceLength (length (base64_decode E n))) w)
               else Inr (base64_decode E n))"
    using q by (simp add: choose_nonce_def Let_def CRAGGY_ROUGH_TIME_NONCE_LENGTH_def)
  show ?thesis
  proof (intro conjI impI)
    assume "length (base64_decode E n) = 32"
    with g cn main_parsed [OF assms(1)] h
    show "\<exists>host. hostname_str st = Some host
               \<and> main E args
                   = leave 1 (main_loop E host (base64_decode E n) (base64_decode E k)
                       (if repeats st = 1 then 0 else intervals st) (repeats st) w)"
      by (simp add: hostname_str_def)
  next
    assume "length (base64_decode E n) \<noteq> 32"
    with g cn main_parsed [OF assms(1)]
    show m: "main E args = (Exit 1, trace w @ [PrintNonceLength (length (base64_decode E n))])"
      by (simp add: leave_def)
    with i(6) show "\<forall>e \<in> set (snd (main E args)). \<not> is_exchange_event e" by auto
  qed
qed

lemma sample_parse_options:
  assumes "n \<le> 48"
  shows "parse_options VCli E (sample_args n) (init_state VCli) init_world =
     (Continue,
      \<lparr>heap = [\<lparr>cap = 49, content = replicate n CHR ''N''\<rparr>,
               \<lparr>cap = 33, content = replicate 32 CHR ''K''\<rparr>,
               \<lparr>cap = n + 1, content = []\<rparr>],
       hostname = Some 0, nonce = Some 0, publicKey = Some 1, gpsPort = None,
       repeats = 1, intervals = 1\<rparr>,
      init_world)"
  using assms
  by (simp add: sample_args_def sample_host_def handle_option_cases case_h_result case_k_result
      case_n_def malloc_def strcpy_def init_state_def Let_def)

lemma sample_supplied:
  "supplied {Opt_n} (sample_args n) None = Some (replicate n CHR ''N'')"
  "supplied {Opt_k} (sample_args n) None = Some (replicate 32 CHR ''K'')"
  by (simp_all add: sample_args_def)

lemma sample_decode:
  "base64_decode (sample_env b t) (replicate n c) = replicate n (of_nat (of_char c))"
  by (simp add: sample_env_def)

lemma sample_exchange:
  "exchange (sample_env 1625585148 1625585148000000) host nb pk init_world =
     (Continue,
      \<lparr>trace = [PrintStart, ClockGettime CLOCK_MONOTONIC, MakeRequest host nb,
                ClockGettime CLOCK_MONOTONIC, ClockGettime CLOCK_REALTIME,
                PrintReply 1000000, PrintCurrentTime 1625585148500000 10000,
                PrintOffset (- 1500000), PrintStop],
       clock_reads = 3, requests = 1\<rparr>)"
proof -
  have c: "timespec_us \<lparr>tv_sec = 1625585148, tv_nsec = 0\<rparr> = 1625585148000000"
       "timespec_us \<lparr>tv_sec = 1625585149, tv_nsec = 0\<rparr> = 1625585149000000"
       "timespec_us \<lparr>tv_sec = 1625585150, tv_nsec = 0\<rparr> = 1625585150000000"
    by (simp_all add: timespec_us_def Let_def)
  have near: "sint ((1625585148500000 :: u64) - 1625585150000000) = - 1500000"
    by (subst sint_diff_int) simp_all
  show ?thesis
    by (subst exchange_success [where req = nb and resp = nb
          and ts = 1625585148000000 and rad = 10000
          and ?tv1.0 = "\<lparr>tv_sec = 1625585148, tv_nsec = 0\<rparr>"
          and ?tv2.0 = "\<lparr>tv_sec = 1625585149, tv_nsec = 0\<rparr>"
          and ?tv3.0 = "\<lparr>tv_sec = 1625585150, tv_nsec = 0\<rparr>"])
       (simp_all add: sample_env_def init_world_def c near emit_def)
qed

lemma sample_main_loop:
  "main_loop (sample_env 1625585148 1625585148000000) host nb pk 0 1 init_world =
     (Continue,
      \<lparr>trace = [PrintStart, ClockGettime CLOCK_MONOTONIC, MakeRequest host nb,
                ClockGettime CLOCK_MONOTONIC, ClockGettime CLOCK_REALTIME,
                PrintReply 1000000, PrintCurrentTime 1625585148500000 10000,
                PrintOffset (- 1500000), PrintStop, Sleep 0],
       clock_reads = 3, requests = 1\<rparr>)"
proof -
  have z: "main_loop E h n k i 0 w = (Continue, w)" for E h n k i w
    by (subst main_loop.simps) simp
  have "(0 :: u8) < 1" by simp
  from main_loop_step [OF this sample_exchange] show ?thesis
    by (simp add: z emit_def)
qed

lemma nonce_length_check_runs:
  "main (sample_env 1625585148 1625585148000000) (sample_args 32) =
     (Exit 1,
      [PrintStart, ClockGettime CLOCK_MONOTONIC,
       MakeRequest (replicate 32 CHR ''N'') (replicate 32 78),
       ClockGettime CLOCK_MONOTONIC, ClockGettime CLOCK_REALTIME,
       PrintReply 1000000, PrintCurrentTime 1625585148500000 10000,
       PrintOffset (- 1500000), PrintStop, Sleep 0])
   \<and> main (sample_env 1625585148 1625585148000000) (sample_args 31) = (Exit 1, [PrintNonceLength 31])
   \<and> main (sample_env 1625585148 1625585148000000) (sample_args 33) = (Exit 1, [PrintNonceLength 33])"
proof -
  let ?E = "sample_env 1625585148 1625585148000000"
  have k: "length (base64_decode ?E (replicate 32 CHR ''K'')) = 32" by (simp add: sample_decode)
  have a: "main ?E (sample_args 32) =
     (Exit 1,
      [PrintStart, ClockGettime CLOCK_MONOTONIC,
       MakeRequest (replicate 32 CHR ''N'') (replicate 32 78),
       ClockGettime CLOCK_MONOTONIC, ClockGettime CLOCK_REALTIME,
       PrintReply 1000000, PrintCurrentTime 1625585148500000 10000,
       PrintOffset (- 1500000), PrintStop, Sleep 0])"
    using nonce_length_check [OF sample_parse_options sample_supplied k, of 32]
    by (simp add: sample_decode hostname_str_def deref_def sample_main_loop leave_def)
  have b: "main ?E (sample_args 31) = (Exit 1, [PrintNonceLength 31])"
    using nonce_length_check [OF sample_parse_options sample_supplied k, of 31]
    by (simp add: sample_decode init_world_def)
  have c: "main ?E (sample_args 33) = (Exit 1, [PrintNonceLength 33])"
    using nonce_length_check [OF sample_parse_options sample_supplied k, of 33]
    by (simp add: sample_decode init_world_def)
  from a b c show ?thesis by simp
qed

theorem nonce_option_overwrites_hostname_witness:
  "MakeRequest (replicate 32 CHR ''N'') (replicate 32 78)
     \<in> set (snd (main (sample_env 1625585148 1625585148000000)
                  ([(Opt_h, Some sample_host), (Opt_k, Some (replicate 32 CHR ''K''))]
                     @ (Opt_n, Some (replicate 32 CHR ''N'')) # [])))
   \<and> (replicate 32 CHR ''N'' :: string) \<noteq> sample_host"
proof -
  let ?E = "sample_env 1625585148 1625585148000000"
  have args: "[(Opt_h, Some sample_host), (Opt_k, Some (replicate 32 CHR ''K''))]
                 @ (Opt_n, Some (replicate 32 CHR ''N'')) # [] = sample_args 32"
    by (simp add: sample_args_def)
  have k: "length (base64_decode ?E (replicate 32 CHR ''K'')) = 32" by (simp add: sample_decode)
  have run: "snd (main ?E (sample_args 32)) =
      [PrintStart, ClockGettime CLOCK_MONOTONIC,
       MakeRequest (the (hostname_str
          \<lparr>heap = [\<lparr>cap = 49, content = replicate 32 CHR ''N''\<rparr>,
               \<lparr>cap = 33, content = replicate 32 CHR ''K''\<rparr>,
               \<lparr>cap = 32 + 1, content = []\<rparr>],
       hostname = Some 0, nonce = Some 0, publicKey = Some 1, gpsPort = None,
       repeats = 1, intervals = 1\<rparr>)) (replicate 32 78),
       ClockGettime CLOCK_MONOTONIC, ClockGettime CLOCK_REALTIME,
       PrintReply 1000000, PrintCurrentTime 1625585148500000 10000,
       PrintOffset (- 1500000), PrintStop, Sleep 0]"
    by (simp add: main_parsed [OF sample_parse_options] after_options_def Let_def
        choose_nonce_def CRAGGY_ROUGH_TIME_PUBLIC_KEY_LENGTH_def CRAGGY_ROUGH_TIME_NONCE_LENGTH_def
        sample_decode deref_def hostname_str_def sample_main_loop leave_def)
  have p: "parse_options VCli ?E
             ([(Opt_h, Some sample_host), (Opt_k, Some (replicate 32 CHR ''K''))]
                @ (Opt_n, Some (replicate 32 CHR ''N'')) # [])
             (init_state VCli) init_world =
     (Continue,
      \<lparr>heap = [\<lparr>cap = 49, content = replicate 32 CHR ''N''\<rparr>,
               \<lparr>cap = 33, content = replicate 32 CHR ''K''\<rparr>,
               \<lparr>cap = 32 + 1, content = []\<rparr>],
       hostname = Some 0, nonce = Some 0, publicKey = Some 1, gpsPort = None,
       repeats = 1, intervals = 1\<rparr>,
      init_world)"
    unfolding args by (rule sample_parse_options) simp
  from nonce_option_overwrites_hostname [OF p]
  have "hostname_str
          \<lparr>heap = [\<lparr>cap = 49, content = replicate 32 CHR ''N''\<rparr>,
               \<lparr>cap = 33, content = replicate 32 CHR ''K''\<rparr>,
               \<lparr>cap = 32 + 1, content = []\<rparr>],
       hostname = Some 0, nonce = Some 0, publicKey = Some 1, gpsPort = None,
       repeats = 1, intervals = 1\<rparr> = Some (replicate 32 CHR ''N'')"
    by simp
  moreover have "(replicate 32 CHR ''N'' :: string) \<noteq> sample_host"
  proof
    assume "replicate 32 CHR ''N'' = sample_host"
    then have "length (replicate 32 CHR ''N'') = length sample_host" by simp
    then show False by (simp add: sample_host_def)
  qed
  ultimately show ?thesis using run args by simp
qed


text \<open>
  Claim C5 does not hold of the code. The \<open>'n'\<close> case allocates a block for \<open>nonce\<close> and
  then copies the argument into the block of \<open>hostname\<close>, where the \<open>'h'\<close> and \<open>'k'\<close> cases
  copy into the block they have just allocated. With the host
  \<open>roughtime.int08h.com:2002\<close> (25 characters, a block of 26 bytes) and a nonce argument
  that is the base64 text of 32 bytes (44 characters), the copy writes 45 bytes into that
  block: the behaviour is undefined whatever the decoder is, the length check is never
  reached in a defined state, and no exchange is attempted. With the nonce option before
  the host option the copy goes through a \<open>NULL\<close> pointer. In neither run is a nonce of 32
  bytes accepted.
\<close>

theorem nonce_of_32_bytes_not_accepted:
  "main E [(Opt_h, Some ''roughtime.int08h.com:2002''),
           (Opt_k, Some ''AW5uAoTSTDfG5NfY1bTh08GUnOqlRb+HVhbJ3ODJvsE=''),
           (Opt_n, Some ''AAAAAAAAAAAAAAAAAAAAAAAAAAAAAAAAAAAAAAAAAAA='')]
     = (Undefined, [])
   \<and> main E [(Opt_n, Some ''AAAAAAAAAAAAAAAAAAAAAAAAAAAAAAAAAAAAAAAAAAA=''),
             (Opt_h, Some ''roughtime.int08h.com:2002''),
             (Opt_k, Some ''AW5uAoTSTDfG5NfY1bTh08GUnOqlRb+HVhbJ3ODJvsE='')]
     = (Undefined, [])
   \<and> length ''AAAAAAAAAAAAAAAAAAAAAAAAAAAAAAAAAAAAAAAAAAA='' = 44
   \<and> length ''roughtime.int08h.com:2002'' = 25"
  by (simp add: main_def handle_option_cases case_h_result case_k_result case_n_def malloc_def
      strcpy_def init_state_def init_world_def leave_def Let_def)

end
